theory Spec2Isabelle
  imports Main "HOL-Library.Word" "HOL-Library.Multiset"
begin

section \<open>JavaScript strings\<close>

text \<open>
  A JavaScript string is a sequence of UTF-16 code units; \<open>length\<close>, \<open>substring\<close>,
  \<open>indexOf\<close> and the other string methods used by the services count code units.
  \<open>js\<close> embeds an ASCII literal.
\<close>

type_synonym jschar = "16 word"
type_synonym jsstring = "jschar list"

definition js :: "string \<Rightarrow> jsstring" where
  "js s = map of_char s"

text \<open>
  \<open>String.prototype.trim\<close> removes WhiteSpace and LineTerminator code units from both
  ends: TAB, LF, VT, FF, CR, SP, NBSP, U+1680, U+2000..U+200A, U+2028, U+2029, U+202F,
  U+205F, U+3000 and U+FEFF.
\<close>

definition isWhiteSpace :: "jschar \<Rightarrow> bool" where
  "isWhiteSpace c \<longleftrightarrow>
     c \<in> {0x09, 0x0A, 0x0B, 0x0C, 0x0D, 0x20, 0xA0, 0x1680, 0x2028, 0x2029, 0x202F,
          0x205F, 0x3000, 0xFEFF}
     \<or> (0x2000 \<le> c \<and> c \<le> 0x200A)"

definition trim :: "jsstring \<Rightarrow> jsstring" where
  "trim s = rev (dropWhile isWhiteSpace (rev (dropWhile isWhiteSpace s)))"

definition startsWith :: "jsstring \<Rightarrow> jsstring \<Rightarrow> bool" where
  "startsWith s p \<longleftrightarrow> take (length p) s = p"

definition endsWith :: "jsstring \<Rightarrow> jsstring \<Rightarrow> bool" where
  "endsWith s p \<longleftrightarrow> length p \<le> length s \<and> drop (length s - length p) s = p"

text \<open>
  \<open>s.replace(/^p/, '')\<close> and \<open>s.replace(/p$/, '')\<close> for a literal \<open>p\<close>: the anchored
  pattern matches at most once, at the start (at the very end: no \<open>m\<close> flag) of \<open>s\<close>.
\<close>

definition replace_start :: "jsstring \<Rightarrow> jsstring \<Rightarrow> jsstring" where
  "replace_start p s = (if startsWith s p then drop (length p) s else s)"

definition replace_end :: "jsstring \<Rightarrow> jsstring \<Rightarrow> jsstring" where
  "replace_end p s = (if endsWith s p then take (length s - length p) s else s)"

text \<open>
  \<open>indexOf\<close> and \<open>lastIndexOf\<close> with a one-character search string, as the source
  calls them; \<open>-1\<close> when the character does not occur.
\<close>

definition indexOf :: "jsstring \<Rightarrow> jschar \<Rightarrow> int" where
  "indexOf s c =
     (if c \<in> set s then int (length (takeWhile (\<lambda>x. x \<noteq> c) s)) else - 1)"

definition lastIndexOf :: "jsstring \<Rightarrow> jschar \<Rightarrow> int" where
  "lastIndexOf s c =
     (if c \<in> set s
      then int (length s) - 1 - int (length (takeWhile (\<lambda>x. x \<noteq> c) (rev s)))
      else - 1)"

text \<open>
  \<open>String.prototype.substring(a, b)\<close>: both arguments are clamped to \<open>[0, length]\<close> and
  swapped when \<open>a > b\<close>.
\<close>

definition substring :: "jsstring \<Rightarrow> int \<Rightarrow> int \<Rightarrow> jsstring" where
  "substring s a b =
     (let n = int (length s);
          a' = min (max a 0) n;
          b' = min (max b 0) n;
          lo = min a' b';
          hi = max a' b'
      in take (nat (hi - lo)) (drop (nat lo) s))"

text \<open>\<open>String.prototype.includes\<close>: the search string occurs at some position.\<close>

fun includes_str :: "jsstring \<Rightarrow> jsstring \<Rightarrow> bool" where
  "includes_str [] p = (p = [])"
| "includes_str (x # xs) p = (startsWith (x # xs) p \<or> includes_str xs p)"

section \<open>ResponseExtractor: \<open>GeminiService.extractJSON\<close>\<close>

definition lbrace :: jschar where "lbrace = 0x7B"
definition rbrace :: jschar where "rbrace = 0x7D"

definition extractJSON :: "jsstring \<Rightarrow> jsstring" where
  "extractJSON text0 =
     (let text1 = trim text0;
          text2 =
            (if startsWith text1 (js ''```json'')
             then replace_end (js ''```'') (replace_start (js ''```json'') text1)
             else if startsWith text1 (js ''```'')
             then replace_end (js ''```'') (replace_start (js ''```'') text1)
             else text1);
          start = indexOf text2 lbrace;
          end = lastIndexOf text2 rbrace
      in if start \<noteq> - 1 \<and> end \<noteq> - 1 \<and> end > start
         then substring text2 start (end + 1)
         else text2)"

text \<open>
  The algorithm in the words of the specification: trim; strip an opening fence (tagged
  \<open>json\<close> or generic) together with a trailing fence; then cut from the first opening
  brace to the last closing brace when the latter comes after the former.
\<close>

definition strip_trailing_fence :: "jsstring \<Rightarrow> jsstring" where
  "strip_trailing_fence t =
     (if endsWith t (js ''```'') then butlast (butlast (butlast t)) else t)"

definition strip_fences :: "jsstring \<Rightarrow> jsstring" where
  "strip_fences t =
     (if startsWith t (js ''```json'') then strip_trailing_fence (drop 7 t)
      else if startsWith t (js ''```'') then strip_trailing_fence (drop 3 t)
      else t)"

definition first_index :: "jschar \<Rightarrow> jsstring \<Rightarrow> nat option" where
  "first_index c t = (if c \<in> set t then Some (length (takeWhile (\<lambda>x. x \<noteq> c) t)) else None)"

definition last_index :: "jschar \<Rightarrow> jsstring \<Rightarrow> nat option" where
  "last_index c t =
     (if c \<in> set t then Some (length t - 1 - length (takeWhile (\<lambda>x. x \<noteq> c) (rev t))) else None)"

definition brace_span :: "jsstring \<Rightarrow> jsstring" where
  "brace_span t =
     (case (first_index lbrace t, last_index rbrace t) of
        (Some i, Some j) \<Rightarrow> if i < j then take (j + 1 - i) (drop i t) else t
      | _ \<Rightarrow> t)"

definition ResponseExtractor :: "jsstring \<Rightarrow> jsstring" where
  "ResponseExtractor raw = brace_span (strip_fences (trim raw))"

section \<open>RetryExecutor: \<open>GeminiService.withRetry\<close>\<close>

text \<open>
  A caught value, as far as the code inspects it (\<open>catch (error: any)\<close>: it may be
  anything).

  \<open>error?.status\<close> is only compared with \<open>===\<close> to 503 and 429: \<open>Some n\<close> when it is the
  integral number \<open>n\<close>, \<open>None\<close> for everything else.

  \<open>error?.message\<close> is only used in \<open>error?.message?.includes(p)\<close>. It is \<open>undefined\<close> or
  \<open>null\<close> (\<open>Absent\<close>: the optional call gives \<open>undefined\<close>), or a string (\<open>Text\<close>:
  \<open>String.prototype.includes\<close>), or any other value (\<open>Other\<close>), which is given by what the
  call \<open>.includes(p)\<close> does on it in the engine at hand: for a number, a boolean or a
  plain object it throws a \<open>TypeError\<close> (there is nothing to call), for an array it
  returns whether \<open>p\<close> is an element, for an object with a method of that name whatever
  the method does; \<open>Inr b\<close> is a truthy or falsy return value, \<open>Inl e\<close> the value
  thrown. Reading the two properties themselves is taken to return (no getter that
  throws). \<open>new Error(m)\<close> has no status and the message \<open>m\<close>.
\<close>

datatype failure = Failure (status: "int option") (message: message_value)
  and message_value =
      Absent
    | Text jsstring
    | Other "jsstring \<Rightarrow> failure + bool"

definition Error :: "jsstring \<Rightarrow> failure" where
  "Error m = Failure None (Text m)"

text \<open>\<open>error?.message?.includes(p)\<close>: its truthiness, or what it throws.\<close>

definition message_includes :: "failure \<Rightarrow> jsstring \<Rightarrow> failure + bool" where
  "message_includes error p =
     (case message error of
        Absent \<Rightarrow> Inr False
      | Text m \<Rightarrow> Inr (includes_str m p)
      | Other f \<Rightarrow> f p)"

text \<open>
  \<open>error?.status === 503 || error?.status === 429 || error?.message?.includes('fetch
  failed')\<close>: the message is looked at only when the status is neither 503 nor 429.
\<close>

definition isRetryable :: "failure \<Rightarrow> failure + bool" where
  "isRetryable error =
     (if status error = Some 503 \<or> status error = Some 429 then Inr True
      else message_includes error (js ''fetch failed''))"

text \<open>
  The asynchronous \<open>operation\<close> is a step on the state \<open>'s\<close> of whatever it talks to:
  it rejects (\<open>Inl\<close>) or resolves (\<open>Inr\<close>). The result of \<open>withRetry\<close> records, beside
  the settled \<open>outcome\<close> and the state reached, the outcome of every invocation of the
  operation in order (\<open>attempts\<close>) and every delay handed to \<open>setTimeout\<close> in order
  (\<open>delays\<close>, in milliseconds). The \<open>catch\<close> block computes \<open>isRetryable\<close> first; what that
  throws leaves \<open>withRetry\<close> as its rejection.
\<close>

record ('a, 's) retried =
  outcome :: "failure + 'a"
  final :: 's
  attempts :: "(failure + 'a) list"
  delays :: "nat list"

fun withRetry ::
  "('s \<Rightarrow> (failure + 'a) \<times> 's) \<Rightarrow> nat \<Rightarrow> nat \<Rightarrow> 's \<Rightarrow> ('a, 's) retried" where
  "withRetry operation retries delay s =
     (case operation s of
        (Inr v, s') \<Rightarrow> \<lparr>outcome = Inr v, final = s', attempts = [Inr v], delays = []\<rparr>
      | (Inl error, s') \<Rightarrow>
          (case isRetryable error of
             Inl thrown \<Rightarrow>
               \<lparr>outcome = Inl thrown, final = s', attempts = [Inl error], delays = []\<rparr>
           | Inr retryable \<Rightarrow>
               if retries > 0 \<and> retryable
               then (let r = withRetry operation (retries - 1) (delay * 2) s'
                     in r\<lparr>attempts := Inl error # attempts r, delays := delay # delays r\<rparr>)
               else \<lparr>outcome = Inl error, final = s', attempts = [Inl error], delays = []\<rparr>))"

text \<open>What the \<open>catch\<close> block makes of a failed invocation when there is no retry.\<close>

definition settled :: "failure + 'a \<Rightarrow> failure + 'a" where
  "settled r =
     (case r of
        Inr v \<Rightarrow> Inr v
      | Inl e \<Rightarrow> (case isRetryable e of Inl thrown \<Rightarrow> Inl thrown | Inr b \<Rightarrow> Inl e))"

text \<open>An operation that plays a fixed script of outcomes, one per invocation.\<close>

fun scripted :: "(failure + 'a) list \<Rightarrow> (failure + 'a) \<times> (failure + 'a) list" where
  "scripted [] = (Inl (Error (js ''script exhausted'')), [])"
| "scripted (x # xs) = (x, xs)"

text \<open>
  The message \<open>42\<close> (or any other value with nothing to call under \<open>includes\<close>) in an
  engine that words the \<open>TypeError\<close> as V8 does.
\<close>

definition not_a_function :: failure where
  "not_a_function = Error (js ''error?.message?.includes is not a function'')"

definition message_42 :: message_value where
  "message_42 = Other (\<lambda>p. Inl not_a_function)"

section \<open>JavaScript values and \<open>JSON.parse\<close>\<close>

text \<open>
  The values \<open>JSON.parse\<close> can return, and \<open>undefined\<close>. An object is the list of its own
  properties; an array carries its elements and any further named property assigned to
  it. A number is kept as the numeric literal that denotes it: no claim looks at its
  value. \<open>Builtin k\<close> is the function or object that the engine has under the name \<open>k\<close>
  on \<open>Object.prototype\<close>; it is only ever the result of a property read that finds no own
  property.
\<close>

datatype jsval =
    Undefined
  | Null
  | Boolean bool
  | Number jsstring
  | String jsstring
  | Array "jsval list" "(jsstring \<times> jsval) list"
  | Object "(jsstring \<times> jsval) list"
  | Builtin jsstring

text \<open>Property assignment \<open>o[k] = v\<close>: an existing property keeps its place.\<close>

fun set_prop :: "('k \<times> 'v) list \<Rightarrow> 'k \<Rightarrow> 'v \<Rightarrow> ('k \<times> 'v) list" where
  "set_prop [] k v = [(k, v)]"
| "set_prop ((k', v') # ps) k v = (if k' = k then (k, v) # ps else (k', v') # set_prop ps k v)"

text \<open>Property read \<open>o.k\<close>: \<open>undefined\<close> for a value that has no such property.\<close>

fun get_prop :: "jsval \<Rightarrow> jsstring \<Rightarrow> jsval" where
  "get_prop (Object ps) k = (case map_of ps k of Some v \<Rightarrow> v | None \<Rightarrow> Undefined)"
| "get_prop (Array xs ps) k = (case map_of ps k of Some v \<Rightarrow> v | None \<Rightarrow> Undefined)"
| "get_prop _ k = Undefined"

text \<open>
  \<open>JSON.parse\<close> (ECMA-404 grammar, no reviver): \<open>None\<close> stands for the \<open>SyntaxError\<close>.
  Whitespace is space, TAB, LF and CR. A string is any code units but the quote, the
  backslash and those below U+0020, with the escapes \<open>\" \\ \/ \b \f \n \r \t \uXXXX\<close>.
\<close>

definition json_ws :: "jschar \<Rightarrow> bool" where
  "json_ws c \<longleftrightarrow> c = 0x20 \<or> c = 0x09 \<or> c = 0x0A \<or> c = 0x0D"

definition skip_ws :: "jsstring \<Rightarrow> jsstring" where
  "skip_ws s = dropWhile json_ws s"

definition isDigit :: "jschar \<Rightarrow> bool" where
  "isDigit c \<longleftrightarrow> 0x30 \<le> c \<and> c \<le> 0x39"

definition hex_value :: "jschar \<Rightarrow> jschar option" where
  "hex_value c =
     (if 0x30 \<le> c \<and> c \<le> 0x39 then Some (c - 0x30)
      else if 0x41 \<le> c \<and> c \<le> 0x46 then Some (c - 0x41 + 10)
      else if 0x61 \<le> c \<and> c \<le> 0x66 then Some (c - 0x61 + 10)
      else None)"

definition hex4 :: "jschar \<Rightarrow> jschar \<Rightarrow> jschar \<Rightarrow> jschar \<Rightarrow> jschar option" where
  "hex4 a b c d =
     (case (hex_value a, hex_value b, hex_value c, hex_value d) of
        (Some x, Some y, Some z, Some w) \<Rightarrow> Some (x * 0x1000 + y * 0x100 + z * 0x10 + w)
      | _ \<Rightarrow> None)"

definition escape_char :: "jschar \<Rightarrow> jschar option" where
  "escape_char e =
     (if e = 0x22 then Some 0x22 else if e = 0x5C then Some 0x5C else if e = 0x2F then Some 0x2F
      else if e = 0x62 then Some 0x08 else if e = 0x66 then Some 0x0C
      else if e = 0x6E then Some 0x0A else if e = 0x72 then Some 0x0D
      else if e = 0x74 then Some 0x09 else None)"

text \<open>The characters of a string after its opening quote, and the text after its closing quote.\<close>

fun string_body :: "jsstring \<Rightarrow> (jsstring \<times> jsstring) option" where
  "string_body [] = None"
| "string_body (c # cs) =
     (if c = 0x22 then Some ([], cs)
      else if c = 0x5C then
        (case cs of
           [] \<Rightarrow> None
         | e # r \<Rightarrow>
             if e = 0x75 then
               (case r of
                  h1 # h2 # h3 # h4 # r' \<Rightarrow>
                    (case hex4 h1 h2 h3 h4 of
                       None \<Rightarrow> None
                     | Some u \<Rightarrow> map_option (\<lambda>(t, z). (u # t, z)) (string_body r'))
                | _ \<Rightarrow> None)
             else
               (case escape_char e of
                  None \<Rightarrow> None
                | Some x \<Rightarrow> map_option (\<lambda>(t, z). (x # t, z)) (string_body r)))
      else if c < 0x20 then None
      else map_option (\<lambda>(t, z). (c # t, z)) (string_body cs))"

text \<open>One or more digits.\<close>

definition digits1 :: "jsstring \<Rightarrow> (jsstring \<times> jsstring) option" where
  "digits1 s = (if takeWhile isDigit s = [] then None
                else Some (takeWhile isDigit s, dropWhile isDigit s))"

text \<open>A number literal: \<open>-? (0 | [1-9][0-9]*) (. [0-9]+)? ([eE] [+-]? [0-9]+)?\<close>.\<close>

definition number_int :: "jsstring \<Rightarrow> (jsstring \<times> jsstring) option" where
  "number_int s =
     (case s of
        [] \<Rightarrow> None
      | d # r \<Rightarrow> if d = 0x30 then Some ([d], r)
                 else if isDigit d then Some (d # takeWhile isDigit r, dropWhile isDigit r)
                 else None)"

definition number_frac :: "jsstring \<Rightarrow> (jsstring \<times> jsstring) option" where
  "number_frac s =
     (case s of
        c # r \<Rightarrow> if c = 0x2E then map_option (\<lambda>(ds, z). (c # ds, z)) (digits1 r) else Some ([], s)
      | [] \<Rightarrow> Some ([], s))"

definition number_exp :: "jsstring \<Rightarrow> (jsstring \<times> jsstring) option" where
  "number_exp s =
     (case s of
        c # r \<Rightarrow>
          if c = 0x65 \<or> c = 0x45 then
            (case r of
               g # r' \<Rightarrow>
                 if g = 0x2B \<or> g = 0x2D then map_option (\<lambda>(ds, z). (c # g # ds, z)) (digits1 r')
                 else map_option (\<lambda>(ds, z). (c # ds, z)) (digits1 r)
             | [] \<Rightarrow> None)
          else Some ([], s)
      | [] \<Rightarrow> Some ([], s))"

definition number_literal :: "jsstring \<Rightarrow> (jsstring \<times> jsstring) option" where
  "number_literal s =
     (let (sign, s1) = (case s of c # r \<Rightarrow> if c = 0x2D then ([c], r) else ([], s) | [] \<Rightarrow> ([], s))
      in case number_int s1 of
           None \<Rightarrow> None
         | Some (i, s2) \<Rightarrow>
             (case number_frac s2 of
                None \<Rightarrow> None
              | Some (f, s3) \<Rightarrow>
                  (case number_exp s3 of
                     None \<Rightarrow> None
                   | Some (e, s4) \<Rightarrow> Some (sign @ i @ f @ e, s4))))"

text \<open>
  The recursive descent. Each function returns the value read and the text after it. The
  first argument bounds the depth of the calls; every call reads a character before it
  calls again at the same level of the text, so a bound of twice the length of the text
  (and two) is never used up, and \<open>JSON_parse\<close> starts with it.
\<close>

fun parse_value :: "nat \<Rightarrow> jsstring \<Rightarrow> (jsval \<times> jsstring) option"
  and parse_elements :: "nat \<Rightarrow> jsval list \<Rightarrow> jsstring \<Rightarrow> (jsval \<times> jsstring) option"
  and parse_members :: "nat \<Rightarrow> (jsstring \<times> jsval) list \<Rightarrow> jsstring \<Rightarrow> (jsval \<times> jsstring) option"
  where
  "parse_value 0 s = None"
| "parse_value (Suc n) s =
     (case skip_ws s of
        [] \<Rightarrow> None
      | c # r \<Rightarrow>
          if c = 0x7B then
            (case skip_ws r of
               [] \<Rightarrow> None
             | c' # r' \<Rightarrow> if c' = 0x7D then Some (Object [], r') else parse_members n [] (c' # r'))
          else if c = 0x5B then
            (case skip_ws r of
               [] \<Rightarrow> None
             | c' # r' \<Rightarrow> if c' = 0x5D then Some (Array [] [], r') else parse_elements n [] (c' # r'))
          else if c = 0x22 then map_option (\<lambda>(t, z). (String t, z)) (string_body r)
          else if startsWith (c # r) (js ''true'') then Some (Boolean True, drop 4 (c # r))
          else if startsWith (c # r) (js ''false'') then Some (Boolean False, drop 5 (c # r))
          else if startsWith (c # r) (js ''null'') then Some (Null, drop 4 (c # r))
          else map_option (\<lambda>(t, z). (Number t, z)) (number_literal (c # r)))"
| "parse_elements 0 acc s = None"
| "parse_elements (Suc n) acc s =
     (case parse_value n s of
        None \<Rightarrow> None
      | Some (v, r) \<Rightarrow>
          (case skip_ws r of
             [] \<Rightarrow> None
           | c # r' \<Rightarrow>
               if c = 0x2C then parse_elements n (acc @ [v]) r'
               else if c = 0x5D then Some (Array (acc @ [v]) [], r')
               else None))"
| "parse_members 0 acc s = None"
| "parse_members (Suc n) acc s =
     (case skip_ws s of
        [] \<Rightarrow> None
      | q # r \<Rightarrow>
          if q \<noteq> 0x22 then None
          else
            (case string_body r of
               None \<Rightarrow> None
             | Some (k, r1) \<Rightarrow>
                 (case skip_ws r1 of
                    [] \<Rightarrow> None
                  | c # r2 \<Rightarrow>
                      if c \<noteq> 0x3A then None
                      else
                        (case parse_value n r2 of
                           None \<Rightarrow> None
                         | Some (v, r3) \<Rightarrow>
                             (case skip_ws r3 of
                                [] \<Rightarrow> None
                              | d # r4 \<Rightarrow>
                                  if d = 0x2C then parse_members n (set_prop acc k v) r4
                                  else if d = 0x7D then Some (Object (set_prop acc k v), r4)
                                  else None)))))"

definition JSON_parse :: "jsstring \<Rightarrow> jsval option" where
  "JSON_parse s =
     (case parse_value (2 * length s + 2) s of
        None \<Rightarrow> None
      | Some (v, r) \<Rightarrow> if skip_ws r = [] then Some v else None)"

section \<open>SourceDeduplicator: grounding sources\<close>

text \<open>
  What \<open>sendMessage\<close> reads of a \<open>GenerateContentResponse\<close>: \<open>result.text\<close> and
  \<open>result.candidates?.[0]?.groundingMetadata?.groundingChunks\<close> (\<open>None\<close> when any link of
  that chain is absent). A chunk may lack \<open>web\<close>, and \<open>web\<close> may lack \<open>uri\<close> or \<open>title\<close>.
\<close>

record Web =
  web_uri :: "jsstring option"
  web_title :: "jsstring option"

record GroundingChunk =
  web :: "Web option"

record GenerateContentResponse =
  response_text :: "jsstring option"
  groundingChunks :: "GroundingChunk list option"

record Source =
  title :: jsstring
  uri :: jsstring

text \<open>Truthiness of an optional string: present and not empty.\<close>

definition truthy :: "jsstring option \<Rightarrow> bool" where
  "truthy x = (case x of None \<Rightarrow> False | Some s \<Rightarrow> s \<noteq> [])"

text \<open>The \<open>forEach\<close> loop pushing a source for every chunk with a truthy uri and title.\<close>

fun push_sources :: "GroundingChunk list \<Rightarrow> Source list" where
  "push_sources [] = []"
| "push_sources (chunk # chunks) =
     (case web chunk of
        None \<Rightarrow> push_sources chunks
      | Some w \<Rightarrow>
          if truthy (web_uri w) \<and> truthy (web_title w)
          then \<lparr>title = the (web_title w), uri = the (web_uri w)\<rparr> # push_sources chunks
          else push_sources chunks)"

text \<open>
  \<open>new Map(entries)\<close> sets the entries in order: a key seen before keeps its place and
  takes the new value. \<open>values()\<close> lists the values in the order of the keys.
\<close>

definition new_Map :: "('k \<times> 'v) list \<Rightarrow> ('k \<times> 'v) list" where
  "new_Map entries = foldl (\<lambda>m (k, v). set_prop m k v) [] entries"

definition Map_values :: "('k \<times> 'v) list \<Rightarrow> 'v list" where
  "Map_values m = map snd m"

definition uniqueSources :: "Source list \<Rightarrow> Source list" where
  "uniqueSources sources = Map_values (new_Map (map (\<lambda>item. (uri item, item)) sources))"

definition sources_of :: "GenerateContentResponse \<Rightarrow> Source list" where
  "sources_of result =
     uniqueSources (case groundingChunks result of None \<Rightarrow> [] | Some chunks \<Rightarrow> push_sources chunks)"

definition Source_value :: "Source \<Rightarrow> jsval" where
  "Source_value item = Object [(js ''title'', String (title item)), (js ''uri'', String (uri item))]"

section \<open>ErrorTranslator: the localized fallback of \<open>sendMessage\<close>\<close>

definition errorMap_default :: "(jsstring \<times> jsstring) list" where
  "errorMap_default =
    [(js ''English'',
      js ''I'' @ [0x27] @
      js ''m having trouble connecting to the movie database. Please ch'' @
      js ''eck your internet connection and try again.''),
     (js ''Hindi'',
      [0x921, 0x947, 0x91F, 0x93E, 0x92C, 0x947, 0x938, 0x20, 0x938, 0x947, 0x20,
       0x91C, 0x941, 0x921, 0x93C, 0x928, 0x947, 0x20, 0x92E, 0x947, 0x902, 0x20,
       0x938, 0x92E, 0x938, 0x94D, 0x92F, 0x93E, 0x20, 0x906, 0x20, 0x930, 0x939,
       0x940, 0x20, 0x939, 0x948, 0x964, 0x20, 0x915, 0x943, 0x92A, 0x92F, 0x93E, 0x20,
       0x905, 0x92A, 0x928, 0x93E, 0x20, 0x907, 0x902, 0x91F, 0x930, 0x928, 0x947,
       0x91F, 0x20, 0x915, 0x928, 0x947, 0x915, 0x94D, 0x936, 0x928, 0x20, 0x91C,
       0x93E, 0x902, 0x91A, 0x947, 0x902, 0x20, 0x914, 0x930, 0x20, 0x92A, 0x941,
       0x928, 0x903, 0x20, 0x92A, 0x94D, 0x930, 0x92F, 0x93E, 0x938, 0x20, 0x915,
       0x930, 0x947, 0x902, 0x964]),
     (js ''Marathi'',
      [0x921, 0x947, 0x91F, 0x93E, 0x92C, 0x947, 0x938, 0x936, 0x940, 0x20, 0x915,
       0x928, 0x947, 0x915, 0x94D, 0x91F, 0x20, 0x915, 0x930, 0x923, 0x94D, 0x92F,
       0x93E, 0x924, 0x20, 0x938, 0x92E, 0x938, 0x94D, 0x92F, 0x93E, 0x20, 0x92F,
       0x947, 0x924, 0x20, 0x906, 0x939, 0x947, 0x2E, 0x20, 0x915, 0x943, 0x92A, 0x92F,
       0x93E, 0x20, 0x924, 0x941, 0x92E, 0x91A, 0x947, 0x20, 0x907, 0x902, 0x91F,
       0x930, 0x928, 0x947, 0x91F, 0x20, 0x915, 0x928, 0x947, 0x915, 0x94D, 0x936,
       0x928, 0x20, 0x924, 0x92A, 0x93E, 0x938, 0x93E, 0x20, 0x906, 0x923, 0x93F, 0x20,
       0x92A, 0x941, 0x928, 0x94D, 0x939, 0x93E, 0x20, 0x92A, 0x94D, 0x930, 0x92F,
       0x924, 0x94D, 0x928, 0x20, 0x915, 0x930, 0x93E, 0x2E]),
     (js ''Spanish'',
      js ''Tengo problemas para conectarme a la base de datos. Por favo'' @
      js ''r, verifica tu conexi'' @ [0xF3] @ js ''n a internet e int'' @ [0xE9] @
      js ''ntalo de nuevo.''),
     (js ''French'',
      js ''Je rencontre des probl'' @ [0xE8] @ js ''mes de connexion. Veuillez v'' @
      [0xE9] @ js ''rifier votre connexion internet et r'' @ [0xE9] @ js ''essayer.'')]"

definition errorMap_safety :: "(jsstring \<times> jsstring) list" where
  "errorMap_safety =
    [(js ''English'',
      js ''I cannot provide recommendations for that specific query due'' @
      js '' to safety guidelines. Please try a different topic.''),
     (js ''Hindi'',
      [0x938, 0x941, 0x930, 0x915, 0x94D, 0x937, 0x93E, 0x20, 0x926, 0x93F, 0x936,
       0x93E, 0x928, 0x93F, 0x930, 0x94D, 0x926, 0x947, 0x936, 0x94B, 0x902, 0x20,
       0x915, 0x947, 0x20, 0x915, 0x93E, 0x930, 0x923, 0x20, 0x92E, 0x948, 0x902, 0x20,
       0x909, 0x938, 0x20, 0x935, 0x93F, 0x937, 0x92F, 0x20, 0x92A, 0x930, 0x20, 0x938,
       0x941, 0x91D, 0x93E, 0x935, 0x20, 0x928, 0x939, 0x940, 0x902, 0x20, 0x926,
       0x947, 0x20, 0x938, 0x915, 0x924, 0x93E, 0x964, 0x20, 0x915, 0x943, 0x92A,
       0x92F, 0x93E, 0x20, 0x915, 0x94B, 0x908, 0x20, 0x905, 0x928, 0x94D, 0x92F, 0x20,
       0x935, 0x93F, 0x937, 0x92F, 0x20, 0x906, 0x91C, 0x93C, 0x92E, 0x93E, 0x90F,
       0x902, 0x964]),
     (js ''Marathi'',
      [0x938, 0x941, 0x930, 0x915, 0x94D, 0x937, 0x93E, 0x20, 0x92E, 0x93E, 0x930,
       0x94D, 0x917, 0x926, 0x930, 0x94D, 0x936, 0x915, 0x20, 0x924, 0x924, 0x94D,
       0x924, 0x94D, 0x935, 0x93E, 0x902, 0x92E, 0x941, 0x933, 0x947, 0x20, 0x92E,
       0x940, 0x20, 0x924, 0x94D, 0x92F, 0x93E, 0x20, 0x935, 0x93F, 0x937, 0x92F,
       0x93E, 0x935, 0x930, 0x20, 0x936, 0x93F, 0x92B, 0x93E, 0x930, 0x938, 0x940,
       0x20, 0x926, 0x947, 0x90A, 0x20, 0x936, 0x915, 0x924, 0x20, 0x928, 0x93E, 0x939,
       0x940, 0x2E, 0x20, 0x915, 0x943, 0x92A, 0x92F, 0x93E, 0x20, 0x935, 0x947, 0x917,
       0x933, 0x93E, 0x20, 0x935, 0x93F, 0x937, 0x92F, 0x20, 0x935, 0x93E, 0x92A,
       0x930, 0x942, 0x928, 0x20, 0x92A, 0x939, 0x93E, 0x2E]),
     (js ''Spanish'',
      js ''No puedo proporcionar recomendaciones para esa consulta debi'' @
      js ''do a pautas de seguridad. Intenta con otro tema.''),
     (js ''French'',
      js ''Je ne peux pas fournir de recommandations pour cette requ'' @ [0xEA] @
      js ''te en raison des r'' @ [0xE8] @ js ''gles de s'' @ [0xE9] @ js ''curit'' @
      [0xE9] @ js ''.'')]"

text \<open>
  The SDK and the engine, as far as the service depends on them: creating the chat
  (which may throw), one turn of the chat and one stateless generation (which reject or
  resolve, and change the state \<open>'w\<close> of the outside world), the message of the
  \<open>TypeError\<close> raised by an assignment to a property of a primitive value (module code is
  strict), and what a property read finds on \<open>Object.prototype\<close> under a name (\<open>None\<close>
  when it has no such property).
\<close>

record 'w platform =
  chats_create :: "'w \<Rightarrow> failure option \<times> 'w"
  chat_sendMessage :: "jsstring \<Rightarrow> 'w \<Rightarrow> (failure + GenerateContentResponse) \<times> 'w"
  models_generateContent :: "jsstring \<Rightarrow> 'w \<Rightarrow> (failure + GenerateContentResponse) \<times> 'w"
  TypeError_message :: "jsval \<Rightarrow> jsstring"
  Object_prototype :: "jsstring \<Rightarrow> jsval option"

text \<open>The service object: whether \<open>this.chat\<close> is set, and the world behind the SDK.\<close>

record 'w session =
  chat :: bool
  world :: 'w

text \<open>
  \<open>errorMap[errorType][language]\<close>, a property read on the object literal of the error
  type: the string of the language when the literal has that key, otherwise what
  \<open>Object.prototype\<close> has under that name, otherwise \<open>undefined\<close>. The type \<open>Language\<close> has
  the five members below.
\<close>

definition errorMap :: "'w platform \<Rightarrow> jsstring \<Rightarrow> jsstring \<Rightarrow> jsval" where
  "errorMap P errorType language =
     (case map_of (if errorType = js ''safety'' then errorMap_safety else errorMap_default) language of
        Some s \<Rightarrow> String s
      | None \<Rightarrow> (case Object_prototype P language of Some v \<Rightarrow> v | None \<Rightarrow> Undefined))"

definition Languages :: "jsstring list" where
  "Languages = [js ''English'', js ''Hindi'', js ''Marathi'', js ''Spanish'', js ''French'']"

text \<open>
  \<open>error?.message?.includes('SAFETY') || error?.message?.includes('BLOCKED')\<close> decides
  the error type; either call may throw, and then the \<open>catch\<close> block throws (\<open>Inl\<close>).
\<close>

definition errorType_of :: "failure \<Rightarrow> failure + jsstring" where
  "errorType_of error =
     (case message_includes error (js ''SAFETY'') of
        Inl thrown \<Rightarrow> Inl thrown
      | Inr True \<Rightarrow> Inr (js ''safety'')
      | Inr False \<Rightarrow>
          (case message_includes error (js ''BLOCKED'') of
             Inl thrown \<Rightarrow> Inl thrown
           | Inr True \<Rightarrow> Inr (js ''safety'')
           | Inr False \<Rightarrow> Inr (js ''default'')))"

definition errorResult :: "'w platform \<Rightarrow> jsstring \<Rightarrow> jsstring \<Rightarrow> jsval" where
  "errorResult P errorType language =
     Object [(js ''summary'', errorMap P errorType language),
             (js ''recommendations'', Array [] [])]"

section \<open>ConversationSession: \<open>sendMessage\<close>, \<open>getColdStart\<close>, \<open>getMovieSynopsis\<close>\<close>

definition languagePrompt :: "jsstring \<Rightarrow> jsstring \<Rightarrow> jsstring" where
  "languagePrompt language msg =
     ([0x0A] @ js ''      IMPORTANT INSTRUCTION:'' @ [0x0A] @
      js ''      You must respond in '')
     @ language
     @ (js '' language. '' @ [0x0A] @ js ''      Translate the '' @ [0x22] @
      js ''summary'' @ [0x22] @ js '', '' @ [0x22] @ js ''reason'' @ [0x22] @
      js '', '' @ [0x22] @ js ''emotionalTone'' @ [0x22] @ js '', '' @ [0x22] @
      js ''bestSuitedFor'' @ [0x22] @ js '', '' @ [0x22] @ js ''synopsis'' @ [0x22] @
      js '', '' @ [0x22] @ js ''specialFeature'' @ [0x22] @ js '', and '' @ [0x22] @
      js ''clarifyingQuestions'' @ [0x22] @ js '' values into '')
     @ language
     @ (js ''.'' @ [0x0A] @ js ''      Keep the JSON keys (like '' @ [0x22] @
      js ''title'' @ [0x22] @ js '', '' @ [0x22] @ js ''year'' @ [0x22] @ js '', '' @
      [0x22] @ js ''genres'' @ [0x22] @ js '', '' @ [0x22] @ js ''rating'' @ [0x22] @
      js '', '' @ [0x22] @ js ''director'' @ [0x22] @ js '', '' @ [0x22] @
      js ''industry'' @ [0x22] @ js '', '' @ [0x22] @ js ''type'' @ [0x22] @
      js '', '' @ [0x22] @ js ''totalSeasons'' @ [0x22] @ js '') in English. '' @
      [0x0A] @ js ''      '' @ [0x0A] @ js ''      User Query: '')
     @ msg"

definition coldStartPrompt :: jsstring where
  "coldStartPrompt =
    js ''Start a new session. Provide a diverse set of 6 high-quality'' @
    js '' starter recommendations. Include a mix of Movies and **TV S'' @
    js ''eries/Web Shows**. Include Hollywood, Indian content, and In'' @
    js ''ternational hits. Fetch real IMDb ratings and trailer URLs.''"


definition initChat :: "'w platform \<Rightarrow> 'w session \<Rightarrow> failure option \<times> 'w session" where
  "initChat P st =
     (if \<not> chat st
      then (case chats_create P (world st) of
              (Some e, w) \<Rightarrow> (Some e, st\<lparr>world := w\<rparr>)
            | (None, w) \<Rightarrow> (None, st\<lparr>chat := True, world := w\<rparr>))
      else (None, st))"

definition chat_turn ::
  "'w platform \<Rightarrow> jsstring \<Rightarrow> 'w session \<Rightarrow> (failure + GenerateContentResponse) \<times> 'w session" where
  "chat_turn P prompt st =
     (case chat_sendMessage P prompt (world st) of (r, w) \<Rightarrow> (r, st\<lparr>world := w\<rparr>))"

text \<open>
  The inner \<open>try\<close>/\<open>catch\<close> around \<open>JSON.parse(cleanJson)\<close>: on a \<open>SyntaxError\<close> the
  text itself, cut at 500 code units, becomes the summary.
\<close>

definition parse_or_fallback :: "jsstring \<Rightarrow> jsval" where
  "parse_or_fallback cleanJson =
     (case JSON_parse cleanJson of
        Some parsed \<Rightarrow> parsed
      | None \<Rightarrow>
          Object [(js ''summary'',
                   String (if length cleanJson > 500
                           then substring cleanJson 0 500 @ js ''...''
                           else cleanJson)),
                  (js ''recommendations'', Array [] [])])"

text \<open>
  \<open>parsed.sources = uniqueSources\<close>: sets the property of an object or an array, and
  throws a \<open>TypeError\<close> for \<open>null\<close>, \<open>undefined\<close> and a primitive value. (A built-in is
  never a parsed value; its properties are not kept.)
\<close>

definition set_sources :: "'w platform \<Rightarrow> jsval \<Rightarrow> Source list \<Rightarrow> failure + jsval" where
  "set_sources P parsed srcs =
     (case parsed of
        Object ps \<Rightarrow> Inr (Object (set_prop ps (js ''sources'') (Array (map Source_value srcs) [])))
      | Array xs ps \<Rightarrow> Inr (Array xs (set_prop ps (js ''sources'') (Array (map Source_value srcs) [])))
      | Builtin k \<Rightarrow> Inr (Builtin k)
      | _ \<Rightarrow> Inl (Error (TypeError_message P parsed)))"

text \<open>The \<open>try\<close> block after the reply has arrived.\<close>

definition handle_result :: "'w platform \<Rightarrow> GenerateContentResponse \<Rightarrow> failure + jsval" where
  "handle_result P result =
     (if \<not> truthy (response_text result) then Inl (Error (js ''Empty response from Gemini.''))
      else
        (let cleanJson = extractJSON (the (response_text result));
             parsed = parse_or_fallback cleanJson
         in set_sources P parsed (sources_of result)))"

text \<open>The whole \<open>try\<close> block of \<open>sendMessage\<close>: \<open>Inl\<close> is the failure its \<open>catch\<close> receives.\<close>

definition sendMessage_try ::
  "'w platform \<Rightarrow> jsstring \<Rightarrow> jsstring \<Rightarrow> 'w session \<Rightarrow> (failure + jsval) \<times> 'w session" where
  "sendMessage_try P msg language st =
     (case initChat P st of
        (Some e, st1) \<Rightarrow> (Inl e, st1)
      | (None, st1) \<Rightarrow>
          if \<not> chat st1 then (Inl (Error (js ''Failed to initialize chat.'')), st1)
          else
            (let r = withRetry (chat_turn P (languagePrompt language msg)) 2 1000 st1
             in case outcome r of
                  Inl e \<Rightarrow> (Inl e, final r)
                | Inr result \<Rightarrow> (handle_result P result, final r)))"

text \<open>
  \<open>sendMessage\<close>: the promise rejects with \<open>Inl\<close> and resolves with \<open>Inr\<close>. It rejects
  when its \<open>catch\<close> block throws, which is when deciding the error type throws.
\<close>

definition sendMessage ::
  "'w platform \<Rightarrow> jsstring \<Rightarrow> jsstring \<Rightarrow> 'w session \<Rightarrow> (failure + jsval) \<times> 'w session" where
  "sendMessage P msg language st =
     (case sendMessage_try P msg language st of
        (Inr parsed, st') \<Rightarrow> (Inr parsed, st')
      | (Inl error, st') \<Rightarrow>
          (case errorType_of error of
             Inl thrown \<Rightarrow> (Inl thrown, st')
           | Inr errorType \<Rightarrow> (Inr (errorResult P errorType language), st')))"

definition getColdStart :: "'w platform \<Rightarrow> jsstring \<Rightarrow> 'w session \<Rightarrow> (jsval, 'w session) retried" where
  "getColdStart P language st = withRetry (sendMessage P coldStartPrompt language) 2 1000 st"





text \<open>
  A platform that plays a script: the world is the list of the outcomes still to come,
  one per request; creating the chat succeeds; \<open>Object.prototype\<close> has the properties of
  the standard and no other.
\<close>

definition Object_prototype_names :: "jsstring list" where
  "Object_prototype_names =
     [js ''constructor'', js ''__defineGetter__'', js ''__defineSetter__'', js ''hasOwnProperty'',
      js ''__lookupGetter__'', js ''__lookupSetter__'', js ''isPrototypeOf'',
      js ''propertyIsEnumerable'', js ''toString'', js ''valueOf'', js ''__proto__'',
      js ''toLocaleString'']"

definition script_platform :: "(failure + GenerateContentResponse) list platform" where
  "script_platform =
     \<lparr>chats_create = (\<lambda>w. (None, w)),
      chat_sendMessage = (\<lambda>prompt. scripted),
      models_generateContent = (\<lambda>prompt. scripted),
      TypeError_message = (\<lambda>v. js ''Cannot create property sources''),
      Object_prototype = (\<lambda>k. if k \<in> set Object_prototype_names then Some (Builtin k) else None)\<rparr>"

section \<open>The displayed list: \<open>displayMovies\<close>\<close>

text \<open>
  The numbers of the displayed list. A JavaScript number is a double; the ones that arise
  here are \<open>NaN\<close>, the two infinities and the doubles whose value is an integer
  (\<open>Fin 0\<close> stands for both zeros, which no operation used here tells apart).
\<close>

datatype jsnum = NaN | Fin int | PosInf | NegInf

text \<open>The number of bits of a positive integer.\<close>

function bit_length :: "int \<Rightarrow> nat" where
  "bit_length n = (if n \<le> 0 then 0 else Suc (bit_length (n div 2)))"
  by pat_completeness auto
termination
  by (relation "measure nat") auto

text \<open>
  The nearest integer with at most 53 significant bits, for a natural number, ties going
  to the even significand.
\<close>

definition round_53 :: "int \<Rightarrow> int" where
  "round_53 a =
     (if a < 2 ^ 53 then a
      else (let e = bit_length a - 53;
                q = a div 2 ^ e;
                r = a mod 2 ^ e
            in (if 2 * r > 2 ^ e \<or> (2 * r = 2 ^ e \<and> odd q) then q + 1 else q) * 2 ^ e))"

text \<open>The Number value for an integer: the nearest double, an infinity from \<open>2^1024\<close> on.\<close>

definition to_double :: "int \<Rightarrow> jsnum" where
  "to_double x =
     (let v = round_53 \<bar>x\<bar>
      in if v \<ge> 2 ^ 1024 then (if x < 0 then NegInf else PosInf)
         else Fin (if x < 0 then - v else v))"


text \<open>\<open>x - y\<close>, \<open>x + y\<close>, \<open>x < y\<close> and \<open>x >= y\<close> on these numbers.\<close>

fun num_sub :: "jsnum \<Rightarrow> jsnum \<Rightarrow> jsnum" where
  "num_sub NaN y = NaN"
| "num_sub x NaN = NaN"
| "num_sub (Fin a) (Fin b) = to_double (a - b)"
| "num_sub (Fin a) PosInf = NegInf"
| "num_sub (Fin a) NegInf = PosInf"
| "num_sub PosInf PosInf = NaN"
| "num_sub PosInf y = PosInf"
| "num_sub NegInf NegInf = NaN"
| "num_sub NegInf y = NegInf"




text \<open>
  \<open>parseInt(s)\<close> with no radix: leading whitespace is skipped, then an optional sign,
  then \<open>0x\<close> or \<open>0X\<close> selects radix 16 (otherwise 10), then the longest run of digits of
  that radix is read; \<open>NaN\<close> when that run is empty, and otherwise the Number value for the
  signed integer the digits denote. (For more than 20 decimal digits the standard lets an
  engine read the digits after the 20th as zeros; the engines round the exact integer,
  as here.)
\<close>

definition digit_value :: "nat \<Rightarrow> jschar \<Rightarrow> nat option" where
  "digit_value radix c =
     (let v = (if 0x30 \<le> c \<and> c \<le> 0x39 then Some (unat c - 0x30)
               else if 0x61 \<le> c \<and> c \<le> 0x7A then Some (unat c - 0x61 + 10)
               else if 0x41 \<le> c \<and> c \<le> 0x5A then Some (unat c - 0x41 + 10)
               else None)
      in case v of None \<Rightarrow> None | Some d \<Rightarrow> if d < radix then Some d else None)"

definition digits_value :: "nat \<Rightarrow> jsstring \<Rightarrow> int" where
  "digits_value radix z = foldl (\<lambda>acc c. acc * int radix + int (the (digit_value radix c))) 0 z"

definition parseInt :: "jsstring \<Rightarrow> jsnum" where
  "parseInt s =
     (let s1 = dropWhile isWhiteSpace s;
          negative = (s1 \<noteq> [] \<and> hd s1 = 0x2D);
          s2 = (if s1 \<noteq> [] \<and> (hd s1 = 0x2B \<or> hd s1 = 0x2D) then tl s1 else s1);
          hex = (startsWith s2 (js ''0x'') \<or> startsWith s2 (js ''0X''));
          radix = (if hex then 16 else 10);
          s3 = (if hex then drop 2 s2 else s2);
          z = takeWhile (\<lambda>c. digit_value radix c \<noteq> None) s3
      in if z = [] then NaN
         else to_double ((if negative then - 1 else 1) * digits_value radix z))"

text \<open>\<open>s.split(c)[0]\<close> for a one-character separator: the text before its first occurrence.\<close>

definition split_first :: "jschar \<Rightarrow> jsstring \<Rightarrow> jsstring" where
  "split_first c s = takeWhile (\<lambda>x. x \<noteq> c) s"

definition en_dash :: jschar where "en_dash = 0x2013"

text \<open>The fields of a \<open>Movie\<close> that \<open>displayMovies\<close> reads.\<close>

record Movie =
  movie_title :: jsstring
  year :: jsstring
  genres :: "jsstring list"
  industry :: "jsstring option"
  movie_language :: "jsstring option"
  movie_type :: "jsstring option"


text \<open>\<open>parseInt(a.year.split(en dash)[0]) || 0\<close>: \<open>NaN\<close> and zero are falsy and become 0.\<close>

definition year_or_0 :: "Movie \<Rightarrow> jsnum" where
  "year_or_0 a =
     (let y = parseInt (split_first en_dash (year a))
      in if y = NaN \<or> y = Fin 0 then Fin 0 else y)"

text \<open>
  \<open>Array.prototype.sort(cmp)\<close> is stable, and reads a comparator result that is \<open>NaN\<close> as
  0. For a comparator that compares keys, as the two here do, the result is the one of
  any stable sort; it is computed by insertion, an element going in front of the first
  later element that it does not follow.
\<close>

fun nonpositive :: "jsnum \<Rightarrow> bool" where
  "nonpositive NaN = True"
| "nonpositive (Fin d) = (d \<le> 0)"
| "nonpositive PosInf = False"
| "nonpositive NegInf = True"

fun insert_cmp :: "('a \<Rightarrow> 'a \<Rightarrow> jsnum) \<Rightarrow> 'a \<Rightarrow> 'a list \<Rightarrow> 'a list" where
  "insert_cmp cmp x [] = [x]"
| "insert_cmp cmp x (y # ys) =
     (if nonpositive (cmp x y) then x # y # ys else y # insert_cmp cmp x ys)"

definition Array_sort :: "('a \<Rightarrow> 'a \<Rightarrow> jsnum) \<Rightarrow> 'a list \<Rightarrow> 'a list" where
  "Array_sort cmp xs = foldr (insert_cmp cmp) xs []"

definition sort_movies :: "jsstring \<Rightarrow> Movie list \<Rightarrow> Movie list" where
  "sort_movies sortBy filtered =
     (if sortBy = js ''newest''
      then Array_sort (\<lambda>a b. num_sub (year_or_0 b) (year_or_0 a)) filtered
      else if sortBy = js ''oldest''
      then Array_sort (\<lambda>a b. num_sub (year_or_0 a) (year_or_0 b)) filtered
      else filtered)"

text \<open>
  The state \<open>displayMovies\<close> depends on. \<open>toLowerCase\<close> is a parameter: what is proved
  holds for whatever the engine's Unicode lower-casing does.
\<close>

record view_state =
  viewMode :: jsstring
  watchlist :: "Movie list"
  recommendations :: "Movie list"
  sortBy :: jsstring
  filterDecade :: jsstring
  filterGenre :: jsstring
  filterIndustry :: jsstring
  filterType :: jsstring




section \<open>The query history: \<open>historyService\<close>\<close>

record HistoryItem =
  query :: jsstring
  timestamp :: int

text \<open>
  \<open>localStorage\<close>, as far as the history goes: under a key, the list whose JSON text is
  stored there (\<open>None\<close> when nothing is stored or the text does not parse), and whether
  \<open>setItem\<close> succeeds (it throws when the quota is used up).
\<close>

record localStorage =
  items :: "jsstring \<Rightarrow> HistoryItem list option"
  writable :: bool

definition BASE_KEY :: jsstring where
  "BASE_KEY = js ''moviesgpt_history''"

definition getKey :: "jsstring option \<Rightarrow> jsstring" where
  "getKey userId =
     (if truthy userId then BASE_KEY @ js ''_'' @ the userId else BASE_KEY @ js ''_guest'')"

definition getHistory :: "jsstring option \<Rightarrow> localStorage \<Rightarrow> HistoryItem list" where
  "getHistory userId ls = (case items ls (getKey userId) of None \<Rightarrow> [] | Some stored \<Rightarrow> stored)"

text \<open>
  \<open>addToHistory\<close>; \<open>now\<close> is the value of \<open>Date.now()\<close>, \<open>toLowerCase\<close> the engine's
  lower-casing. A throwing \<open>setItem\<close> is caught and leaves the storage as it was.
\<close>

definition addToHistory ::
  "(jsstring \<Rightarrow> jsstring) \<Rightarrow> int \<Rightarrow> jsstring \<Rightarrow> jsstring option \<Rightarrow> localStorage \<Rightarrow> localStorage" where
  "addToHistory toLowerCase now q userId ls =
     (let key = getKey userId;
          history = getHistory userId ls;
          newItem = \<lparr>query = q, timestamp = now\<rparr>;
          filtered = filter (\<lambda>h. toLowerCase (query h) \<noteq> toLowerCase (trim q)) history;
          updated = take 20 (newItem # filtered)
      in if writable ls then ls\<lparr>items := (items ls)(key \<mapsto> updated)\<rparr> else ls)"

text \<open>
  \<open>String.prototype.toLowerCase\<close> on strings of ASCII code units, where it maps \<open>A\<close>..\<open>Z\<close>
  to \<open>a\<close>..\<open>z\<close> and nothing else; used at concrete ASCII inputs only.
\<close>

definition toLowerCase_ascii :: "jsstring \<Rightarrow> jsstring" where
  "toLowerCase_ascii s = map (\<lambda>c. if 0x41 \<le> c \<and> c \<le> 0x5A then c + 0x20 else c) s"

section \<open>Notions the properties are stated with\<close>

text \<open>The distinct elements of a list, in the order of their first occurrence.\<close>

fun first_seen :: "'a list \<Rightarrow> 'a list" where
  "first_seen [] = []"
| "first_seen (x # xs) = x # filter (\<lambda>y. y \<noteq> x) (first_seen xs)"

text \<open>A citation fragment that has both a uri and a title (present and not empty).\<close>

definition has_uri_and_title :: "GroundingChunk \<Rightarrow> bool" where
  "has_uri_and_title chunk =
     (case web chunk of
        None \<Rightarrow> False
      | Some w \<Rightarrow>
          (case (web_uri w, web_title w) of
             (Some u, Some t) \<Rightarrow> u \<noteq> [] \<and> t \<noteq> []
           | _ \<Rightarrow> False))"

definition source_of :: "GroundingChunk \<Rightarrow> Source" where
  "source_of chunk = \<lparr>title = the (web_title (the (web chunk))), uri = the (web_uri (the (web chunk)))\<rparr>"

text \<open>
  The numbers a comparison orders, which are the doubles and the two infinities, and
  their order read off the integers: a double is below \<open>2^1024\<close> in absolute value, and
  the infinities are put at \<open>2^1024\<close> and \<open>-2^1024\<close>.
\<close>

definition is_double :: "jsnum \<Rightarrow> bool" where
  "is_double x = (case x of Fin v \<Rightarrow> \<bar>v\<bar> < 2 ^ 1024 | NaN \<Rightarrow> False | _ \<Rightarrow> True)"

definition rank :: "jsnum \<Rightarrow> int" where
  "rank x = (case x of Fin v \<Rightarrow> v | PosInf \<Rightarrow> 2 ^ 1024 | NegInf \<Rightarrow> - (2 ^ 1024) | NaN \<Rightarrow> 0)"

section \<open>Facts about the string operations\<close>

lemma js_Nil [simp]: "js [] = []" by (simp add: js_def)

lemma length_js: "length (js s) = length s" by (simp add: js_def)

lemma startsWith_append [simp]: "startsWith (p @ r) p"
  by (simp add: startsWith_def)

lemma endsWith_append [simp]: "endsWith (r @ p) p"
  by (simp add: endsWith_def)

lemma replace_start_append [simp]: "replace_start p (p @ r) = r"
  by (simp add: replace_start_def)

lemma replace_end_append [simp]: "replace_end p (r @ p) = r"
  by (simp add: replace_end_def)

lemma dropWhile_all: "\<forall>c\<in>set w. P c \<Longrightarrow> dropWhile P (w @ r) = dropWhile P r"
  by (induction w) auto

lemma takeWhile_all: "\<forall>c\<in>set w. P c \<Longrightarrow> \<not> P y \<Longrightarrow> takeWhile P (w @ y # r) = w"
  by (induction w) auto

lemma trim_wrap:
  assumes "\<forall>c\<in>set w1. isWhiteSpace c" "\<forall>c\<in>set w2. isWhiteSpace c"
    and "x \<noteq> []" "\<not> isWhiteSpace (hd x)" "\<not> isWhiteSpace (last x)"
  shows "trim (w1 @ x @ w2) = x"
proof -
  obtain h t where x1: "x = h # t" using assms(3) by (cases x) auto
  obtain i l where x2: "x = i @ [l]" using assms(3) by (cases x rule: rev_cases) auto
  have a: "dropWhile isWhiteSpace (w1 @ x @ w2) = x @ w2"
    using assms(1,4) x1 by (simp add: dropWhile_all)
  have "dropWhile isWhiteSpace (rev w2 @ rev x) = dropWhile isWhiteSpace (rev x)"
    using assms(2) by (intro dropWhile_all) simp
  also have "\<dots> = rev x" using assms(5) x2 by simp
  finally have b: "dropWhile isWhiteSpace (rev (x @ w2)) = rev x" by simp
  show ?thesis unfolding trim_def a b by simp
qed

lemma indexOf_decomp:
  "c \<notin> set a \<Longrightarrow> indexOf (a @ c # r) c = int (length a)"
proof -
  assume "c \<notin> set a"
  then have "takeWhile (\<lambda>x. x \<noteq> c) (a @ c # r) = a"
    by (intro takeWhile_all) auto
  then show ?thesis by (simp add: indexOf_def)
qed

lemma lastIndexOf_decomp:
  assumes "c \<notin> set z" shows "lastIndexOf (p @ c # z) c = int (length p)"
proof -
  have "takeWhile (\<lambda>x. x \<noteq> c) (rev z @ c # rev p) = rev z"
    using assms by (intro takeWhile_all) auto
  then show ?thesis by (simp add: lastIndexOf_def)
qed

lemma substring_mid:
  "substring (a @ m @ z) (int (length a)) (int (length a + length m)) = m"
proof -
  have "min (max (int (length a)) 0) (int (length (a @ m @ z))) = int (length a)" by simp
  moreover have "min (max (int (length a + length m)) 0) (int (length (a @ m @ z)))
      = int (length a + length m)" by simp
  ultimately show ?thesis
    unfolding substring_def Let_def by simp
qed

section \<open>ResponseExtractor: the extraction algorithm\<close>

lemma js_json: "js ''```json'' = [0x60, 0x60, 0x60, 0x6A, 0x73, 0x6F, 0x6E]"
  and js_fence: "js ''```'' = [0x60, 0x60, 0x60]"
  by (simp_all add: js_def)

lemma len_json: "length (js ''```json'') = 7" and len_fence: "length (js ''```'') = 3"
  by (simp_all add: js_def)

lemma takeWhile_neq_less: "c \<in> set t \<Longrightarrow> length (takeWhile (\<lambda>x. x \<noteq> c) t) < length t"
  by (induction t) auto

lemma replace_end_fence: "replace_end (js ''```'') t = strip_trailing_fence t"
  by (simp add: replace_end_def strip_trailing_fence_def butlast_conv_take len_fence numeral_3_eq_3)

lemma text2_eq:
  "(if startsWith t (js ''```json'')
    then replace_end (js ''```'') (replace_start (js ''```json'') t)
    else if startsWith t (js ''```'')
    then replace_end (js ''```'') (replace_start (js ''```'') t)
    else t) = strip_fences t"
  by (simp add: strip_fences_def replace_end_fence replace_start_def len_json len_fence)

lemma indexOf_first_index:
  "indexOf t c = (case first_index c t of None \<Rightarrow> - 1 | Some i \<Rightarrow> int i)"
  by (simp add: indexOf_def first_index_def)

lemma last_index_less: "last_index c t = Some j \<Longrightarrow> j < length t"
  by (cases t) (auto simp: last_index_def split: if_splits)

lemma first_index_less: "first_index c t = Some i \<Longrightarrow> i < length t"
  by (auto simp: first_index_def split: if_splits intro: takeWhile_neq_less)

lemma lastIndexOf_last_index:
  "lastIndexOf t c = (case last_index c t of None \<Rightarrow> - 1 | Some i \<Rightarrow> int i)"
proof (cases "c \<in> set t")
  case True
  then have "length (takeWhile (\<lambda>x. x \<noteq> c) (rev t)) < length (rev t)"
    by (intro takeWhile_neq_less) auto
  then show ?thesis using True by (simp add: lastIndexOf_def last_index_def)
next
  case False
  then show ?thesis by (simp add: lastIndexOf_def last_index_def)
qed

lemma substring_take_drop:
  assumes "i < j" "j < length t"
  shows "substring t (int i) (int j + 1) = take (j + 1 - i) (drop i t)"
proof -
  have a: "min (max (int i) 0) (int (length t)) = int i" using assms by simp
  have b: "min (max (int j + 1) 0) (int (length t)) = int j + 1" using assms by simp
  have c: "nat (max (int i) (int j + 1) - min (int i) (int j + 1)) = j + 1 - i"
    using assms by (simp add: max_def min_def)
  have d: "nat (min (int i) (int j + 1)) = i" using assms by (simp add: min_def)
  show ?thesis unfolding substring_def Let_def a b c d ..
qed

lemma brace_part_eq:
  "(let start = indexOf t lbrace; end = lastIndexOf t rbrace
    in if start \<noteq> - 1 \<and> end \<noteq> - 1 \<and> end > start then substring t start (end + 1) else t)
   = brace_span t"
proof (cases "first_index lbrace t")
  case None
  then show ?thesis by (simp add: brace_span_def indexOf_first_index)
next
  case (Some i)
  show ?thesis
  proof (cases "last_index rbrace t")
    case None
    then show ?thesis using Some
      by (simp add: brace_span_def indexOf_first_index lastIndexOf_last_index)
  next
    case (Some j)
    note j = this
    show ?thesis
    proof (cases "i < j")
      case True
      then show ?thesis
        using \<open>first_index lbrace t = Some i\<close> j substring_take_drop [OF True last_index_less [OF j]]
        by (simp add: brace_span_def indexOf_first_index lastIndexOf_last_index)
    next
      case False
      then show ?thesis
        using \<open>first_index lbrace t = Some i\<close> j
        by (simp add: brace_span_def indexOf_first_index lastIndexOf_last_index)
    qed
  qed
qed

lemma extractJSON_refines: "extractJSON raw = ResponseExtractor raw"
  unfolding extractJSON_def ResponseExtractor_def Let_def
  using brace_part_eq [of "strip_fences (trim raw)"]
  by (simp only: text2_eq Let_def)

lemma first_index_decomp: "c \<notin> set a \<Longrightarrow> first_index c (a @ c # r) = Some (length a)"
proof -
  assume "c \<notin> set a"
  then have "takeWhile (\<lambda>x. x \<noteq> c) (a @ c # r) = a"
    by (intro takeWhile_all) auto
  then show ?thesis by (simp add: first_index_def)
qed

lemma last_index_decomp: "c \<notin> set z \<Longrightarrow> last_index c (p @ c # z) = Some (length p)"
proof -
  assume "c \<notin> set z"
  then have "takeWhile (\<lambda>x. x \<noteq> c) (rev z @ c # rev p) = rev z"
    by (intro takeWhile_all) auto
  then show ?thesis by (simp add: last_index_def)
qed

lemma brace_span_found:
  assumes "lbrace \<notin> set a" "rbrace \<notin> set c"
  shows "brace_span (a @ [lbrace] @ b @ [rbrace] @ c) = [lbrace] @ b @ [rbrace]"
proof -
  let ?t = "a @ [lbrace] @ b @ [rbrace] @ c"
  have i: "first_index lbrace ?t = Some (length a)"
    using first_index_decomp [OF assms(1), of "b @ [rbrace] @ c"] by simp
  have j: "last_index rbrace ?t = Some (length a + 1 + length b)"
    using last_index_decomp [OF assms(2), of "a @ [lbrace] @ b"] by simp
  have d: "drop (length a) ?t = ([lbrace] @ b @ [rbrace]) @ c" by simp
  have n: "length a + 1 + length b + 1 - length a = length ([lbrace] @ b @ [rbrace])" by simp
  have k: "take (length a + 1 + length b + 1 - length a) (drop (length a) ?t) = [lbrace] @ b @ [rbrace]"
    unfolding d n by (rule append_eq_conv_conj [THEN iffD1, THEN conjunct1, symmetric]) simp
  have lt: "length a < length a + 1 + length b" by simp
  show ?thesis unfolding brace_span_def i j using k lt by (simp del: append.simps)
qed

lemma brace_span_none:
  assumes "lbrace \<notin> set t \<or> rbrace \<notin> set (dropWhile (\<lambda>x. x \<noteq> lbrace) t)"
  shows "brace_span t = t"
proof (cases "lbrace \<in> set t")
  case False
  then show ?thesis by (simp add: brace_span_def first_index_def)
next
  case True
  with assms have r: "rbrace \<notin> set (dropWhile (\<lambda>x. x \<noteq> lbrace) t)" by simp
  define a where "a = takeWhile (\<lambda>x. x \<noteq> lbrace) t"
  define d where "d = dropWhile (\<lambda>x. x \<noteq> lbrace) t"
  have t: "t = a @ d" by (simp add: a_def d_def)
  have rd: "rbrace \<notin> set d" using r by (simp add: d_def)
  have i: "first_index lbrace t = Some (length a)"
    using True by (simp add: first_index_def a_def)
  show ?thesis
  proof (cases "rbrace \<in> set a")
    case False
    then have "rbrace \<notin> set t" using rd by (simp add: t)
    then show ?thesis by (simp add: brace_span_def last_index_def i)
  next
    case True
    then obtain p z where a: "a = p @ rbrace # z" "rbrace \<notin> set z"
      by (meson split_list_last)
    have "last_index rbrace (p @ rbrace # (z @ d)) = Some (length p)"
      using a(2) rd by (intro last_index_decomp) simp
    then have j: "last_index rbrace t = Some (length p)" by (simp add: t a(1))
    have "\<not> length a < length p" by (simp add: a(1))
    then show ?thesis unfolding brace_span_def i j by simp
  qed
qed

lemma not_ws_backtick: "\<not> isWhiteSpace 0x60"
  by (simp add: isWhiteSpace_def)

lemma strip_fences_json: "strip_fences (js ''```json'' @ inner @ js ''```'') = inner"
proof -
  have "strip_trailing_fence (inner @ js ''```'') = inner"
    using replace_end_append [of "js ''```''" inner] by (simp only: replace_end_fence)
  moreover have "drop 7 (js ''```json'' @ inner @ js ''```'') = inner @ js ''```''"
    by (simp add: len_json)
  ultimately show ?thesis by (simp add: strip_fences_def)
qed

lemma startsWith_json_tail:
  assumes "startsWith (inner @ js ''```'') (js ''json'')"
  shows "startsWith inner (js ''json'')"
proof -
  have j: "js ''json'' = [0x6A, 0x73, 0x6F, 0x6E]" by (simp add: js_def)
  show ?thesis
  proof (cases inner)
    case Nil
    then show ?thesis using assms by (simp add: startsWith_def j js_fence)
  next
    case (Cons x1 r1)
    note c1 = this
    show ?thesis
    proof (cases r1)
      case Nil
      then show ?thesis using assms c1 by (simp add: startsWith_def j js_fence)
    next
      case (Cons x2 r2)
      note c2 = this
      show ?thesis
      proof (cases r2)
        case Nil
        then show ?thesis using assms c1 c2 by (simp add: startsWith_def j js_fence)
      next
        case (Cons x3 r3)
        note c3 = this
        show ?thesis
        proof (cases r3)
          case Nil
          then show ?thesis using assms c1 c2 c3 by (simp add: startsWith_def j js_fence)
        next
          case (Cons x4 r4)
          then show ?thesis using assms c1 c2 c3 by (simp add: startsWith_def j)
        qed
      qed
    qed
  qed
qed

lemma prefix_split:
  assumes "q1 @ c # rest = f @ r" "c \<notin> set f"
  shows "\<exists>w. q1 = f @ w \<and> r = w @ c # rest"
  using assms
proof (induction f arbitrary: q1)
  case Nil
  then show ?case by simp
next
  case (Cons x f)
  show ?case
  proof (cases q1)
    case Nil
    with Cons.prems show ?thesis by simp
  next
    case (Cons y q)
    with Cons.prems Cons.IH [of q] show ?thesis by simp
  qed
qed

lemma suffix_split:
  assumes "pre @ c # q2 = u @ f" "c \<notin> set f"
  shows "\<exists>w. q2 = w @ f \<and> u = pre @ c # w"
proof -
  have "rev (pre @ c # q2) = rev (u @ f)" by (simp only: assms(1))
  then have e: "rev q2 @ c # rev pre = rev f @ rev u" by simp
  have n: "c \<notin> set (rev f)" using assms(2) by simp
  from prefix_split [OF e n] obtain w where w: "rev q2 = rev f @ w" "rev u = w @ c # rev pre"
    by blast
  have "q2 = rev (rev q2)" by simp
  also have "\<dots> = rev w @ f" by (simp only: w(1) rev_append rev_rev_ident)
  finally have a: "q2 = rev w @ f" .
  have "u = rev (rev u)" by simp
  also have "\<dots> = pre @ c # rev w" by (simp only: w(2)) simp
  finally have b: "u = pre @ c # rev w" .
  from a b show ?thesis by blast
qed

lemma startsWith_split: "startsWith t f \<Longrightarrow> t = f @ drop (length f) t"
  by (metis append_take_drop_id startsWith_def)

lemma endsWith_split: "endsWith t f \<Longrightarrow> t = take (length t - length f) t @ f"
  by (metis append_take_drop_id endsWith_def)

lemma drop_keeps:
  assumes "c \<notin> set f" "startsWith (q1 @ c # rest) f"
  shows "\<exists>w. drop (length f) (q1 @ c # rest) = w @ c # rest \<and> set w \<subseteq> set q1"
proof -
  from prefix_split [OF startsWith_split [OF assms(2)] assms(1)]
  obtain w where w: "q1 = f @ w" "drop (length f) (q1 @ c # rest) = w @ c # rest" by blast
  then show ?thesis by auto
qed

lemma rbrace_not_fence: "rbrace \<notin> set (js ''```'')" and lbrace_not_fence: "lbrace \<notin> set (js ''```'')"
  and lbrace_not_json: "lbrace \<notin> set (js ''```json'')"
  by (simp_all add: js_def lbrace_def rbrace_def)

lemma strip_trailing_fence_keeps:
  assumes "rbrace \<notin> set q2"
  shows "\<exists>w. strip_trailing_fence (pre @ rbrace # q2) = pre @ rbrace # w \<and> set w \<subseteq> set q2"
proof (cases "endsWith (pre @ rbrace # q2) (js ''```'')")
  case False
  then show ?thesis by (auto simp: strip_trailing_fence_def)
next
  case True
  define u where "u = take (length (pre @ rbrace # q2) - length (js ''```'')) (pre @ rbrace # q2)"
  have e: "pre @ rbrace # q2 = u @ js ''```''"
    unfolding u_def by (rule endsWith_split [OF True])
  from suffix_split [OF e rbrace_not_fence] obtain w where w: "q2 = w @ js ''```''" "u = pre @ rbrace # w"
    by blast
  have "strip_trailing_fence (u @ js ''```'') = u"
    using replace_end_append [of "js ''```''" u] by (simp only: replace_end_fence)
  then have "strip_trailing_fence (pre @ rbrace # q2) = pre @ rbrace # w"
    using e w(2) by simp
  then show ?thesis using w(1) by auto
qed

lemma strip_fences_keeps:
  assumes "lbrace \<notin> set q1" "rbrace \<notin> set q2"
  shows "\<exists>v w. strip_fences (q1 @ lbrace # m @ rbrace # q2) = v @ lbrace # m @ rbrace # w
           \<and> set v \<subseteq> set q1 \<and> set w \<subseteq> set q2"
proof -
  let ?t = "q1 @ lbrace # m @ rbrace # q2"
  have tail: "\<exists>w. strip_trailing_fence (v @ lbrace # m @ rbrace # q2) = v @ lbrace # m @ rbrace # w
                \<and> set w \<subseteq> set q2" for v
    using strip_trailing_fence_keeps [OF assms(2), of "v @ lbrace # m"] by simp
  show ?thesis
  proof (cases "startsWith ?t (js ''```json'')")
    case True
    from drop_keeps [OF lbrace_not_json True] obtain v where
      v: "drop 7 ?t = v @ lbrace # m @ rbrace # q2" "set v \<subseteq> set q1"
      by (auto simp: len_json)
    from tail [of v] obtain w where
      "strip_trailing_fence (v @ lbrace # m @ rbrace # q2) = v @ lbrace # m @ rbrace # w" "set w \<subseteq> set q2"
      by blast
    then show ?thesis using True v by (simp add: strip_fences_def) blast
  next
    case False
    note nj = this
    show ?thesis
    proof (cases "startsWith ?t (js ''```'')")
      case True
      from drop_keeps [OF lbrace_not_fence True] obtain v where
        v: "drop 3 ?t = v @ lbrace # m @ rbrace # q2" "set v \<subseteq> set q1"
        by (auto simp: len_fence)
      from tail [of v] obtain w where
        "strip_trailing_fence (v @ lbrace # m @ rbrace # q2) = v @ lbrace # m @ rbrace # w" "set w \<subseteq> set q2"
        by blast
      then show ?thesis using True nj v by (simp add: strip_fences_def) blast
    next
      case False
      then show ?thesis using nj by (simp add: strip_fences_def) blast
    qed
  qed
qed

lemma trim_mid:
  assumes "\<not> isWhiteSpace h" "\<not> isWhiteSpace l"
  shows "\<exists>v w. trim (p1 @ h # m @ l # p2) = v @ h # m @ l # w \<and> set v \<subseteq> set p1 \<and> set w \<subseteq> set p2"
proof -
  define v where "v = dropWhile isWhiteSpace p1"
  define w where "w = rev (dropWhile isWhiteSpace (rev p2))"
  have a: "dropWhile isWhiteSpace (p1 @ h # m @ l # p2) = v @ h # m @ l # p2"
    using assms(1) by (simp add: dropWhile_append v_def)
  have b: "dropWhile isWhiteSpace (rev (v @ h # m @ l # p2)) = rev w @ rev (v @ h # m @ [l])"
    using assms(2) by (simp add: dropWhile_append w_def)
  have "trim (p1 @ h # m @ l # p2) = v @ h # m @ l # w"
    unfolding trim_def a b by simp
  moreover have "set v \<subseteq> set p1" unfolding v_def by (rule set_dropWhileD [THEN subsetI])
  moreover have "set w \<subseteq> set p2" unfolding w_def using set_dropWhileD [of _ isWhiteSpace "rev p2"] by auto
  ultimately show ?thesis by blast
qed

lemma not_ws_braces: "\<not> isWhiteSpace lbrace" "\<not> isWhiteSpace rbrace"
  by (simp_all add: isWhiteSpace_def lbrace_def rbrace_def)

lemma extractJSON_prose:
  assumes "lbrace \<notin> set p1" "rbrace \<notin> set p2"
  shows "extractJSON (p1 @ [lbrace] @ b @ [rbrace] @ p2) = [lbrace] @ b @ [rbrace]"
proof -
  from trim_mid [OF not_ws_braces, of p1 b p2] obtain v w where
    t: "trim (p1 @ lbrace # b @ rbrace # p2) = v @ lbrace # b @ rbrace # w"
       "set v \<subseteq> set p1" "set w \<subseteq> set p2" by blast
  have "lbrace \<notin> set v" "rbrace \<notin> set w" using t(2,3) assms by auto
  from strip_fences_keeps [OF this, of b] obtain v' w' where
    s: "strip_fences (v @ lbrace # b @ rbrace # w) = v' @ lbrace # b @ rbrace # w'"
       "set v' \<subseteq> set v" "set w' \<subseteq> set w" by blast
  have "lbrace \<notin> set v'" "rbrace \<notin> set w'" using s(2,3) t(2,3) assms by auto
  from brace_span_found [OF this, of b]
  show ?thesis
    by (simp add: extractJSON_refines ResponseExtractor_def t(1) s(1))
qed

lemma extractJSON_fenced:
  assumes "\<forall>c\<in>set w1. isWhiteSpace c" "\<forall>c\<in>set w2. isWhiteSpace c"
    and "fence = js ''```json'' \<or> fence = js ''```'' \<and> \<not> startsWith inner (js ''json'')"
  shows "extractJSON (w1 @ fence @ inner @ js ''```'' @ w2) = brace_span inner"
proof -
  let ?x = "fence @ inner @ js ''```''"
  have f: "fence = js ''```json'' \<or> fence = js ''```''" using assms(3) by blast
  have x: "?x \<noteq> []" "hd ?x = 0x60" "last ?x = 0x60"
    using f by (auto simp: js_json js_fence)
  have "trim (w1 @ ?x @ w2) = ?x"
    using x not_ws_backtick by (intro trim_wrap assms(1,2)) simp_all
  then have t: "trim (w1 @ fence @ inner @ js ''```'' @ w2) = ?x" by simp
  have "strip_fences ?x = inner"
  proof (cases "fence = js ''```json''")
    case True
    then show ?thesis by (simp add: strip_fences_json)
  next
    case False
    with assms(3) have g: "fence = js ''```''" "\<not> startsWith inner (js ''json'')" by auto
    have "\<not> startsWith (js ''```'' @ inner @ js ''```'') (js ''```json'')"
    proof
      assume "startsWith (js ''```'' @ inner @ js ''```'') (js ''```json'')"
      then have "startsWith (inner @ js ''```'') (js ''json'')"
        by (simp add: startsWith_def js_def)
      with startsWith_json_tail g(2) show False by blast
    qed
    moreover have "strip_trailing_fence (inner @ js ''```'') = inner"
      using replace_end_append [of "js ''```''" inner] by (simp only: replace_end_fence)
    moreover have "drop 3 (js ''```'' @ inner @ js ''```'') = inner @ js ''```''"
      by (simp add: len_fence)
    ultimately show ?thesis using g(1) by (simp add: strip_fences_def)
  qed
  then show ?thesis by (simp add: extractJSON_refines ResponseExtractor_def t)
qed

lemma ws_no_braces: "\<forall>x\<in>set w. isWhiteSpace x \<Longrightarrow> lbrace \<notin> set w \<and> rbrace \<notin> set w"
  using not_ws_braces by blast

lemma extractJSON_fenced_span:
  assumes "\<forall>x\<in>set w1. isWhiteSpace x" "\<forall>x\<in>set w2. isWhiteSpace x"
    and "fence = js ''```json'' \<or> fence = js ''```''"
    and "lbrace \<notin> set a" "rbrace \<notin> set c"
  shows "extractJSON (w1 @ fence @ (a @ [lbrace] @ b @ [rbrace] @ c) @ js ''```'' @ w2)
           = [lbrace] @ b @ [rbrace]"
proof -
  have "lbrace \<notin> set fence" using assms(3) lbrace_not_json lbrace_not_fence by blast
  then have l: "lbrace \<notin> set (w1 @ fence @ a)"
    using ws_no_braces [OF assms(1)] assms(4) by simp
  have r: "rbrace \<notin> set (c @ js ''```'' @ w2)"
    using ws_no_braces [OF assms(2)] assms(5) rbrace_not_fence by simp
  from extractJSON_prose [OF l r, of b] show ?thesis by simp
qed

text \<open>
  C5 (as the code has it). \<open>extractJSON\<close> is total and computes exactly the algorithm of
  the specification (\<open>ResponseExtractor\<close>): trim, strip an opening fence with its trailing
  fence, then cut from the first opening brace to the last closing brace. For an input
  wrapped in a fenced code block (tagged \<open>json\<close> or not, with whitespace around it) the
  result is the span from the first opening brace to the last closing brace of the inner
  content when there is one, and the exact inner content otherwise (for an untagged
  fence: when the inner content does not itself begin with \<open>json\<close>). For an input with
  one brace span surrounded by prose the result is exactly that span.
\<close>

theorem extractJSON_algorithm:
  "extractJSON raw = ResponseExtractor raw
   \<and> ((\<forall>x\<in>set wl. isWhiteSpace x) \<and> (\<forall>x\<in>set wr. isWhiteSpace x)
        \<and> (fence = js ''```json'' \<or> fence = js ''```'')
        \<and> lbrace \<notin> set a \<and> rbrace \<notin> set c
      \<longrightarrow> extractJSON (wl @ fence @ (a @ [lbrace] @ b @ [rbrace] @ c) @ js ''```'' @ wr)
            = [lbrace] @ b @ [rbrace])
   \<and> ((\<forall>x\<in>set wl. isWhiteSpace x) \<and> (\<forall>x\<in>set wr. isWhiteSpace x)
        \<and> (fence = js ''```json'' \<or> fence = js ''```'' \<and> \<not> startsWith inner (js ''json''))
        \<and> (lbrace \<notin> set inner \<or> rbrace \<notin> set (dropWhile (\<lambda>x. x \<noteq> lbrace) inner))
      \<longrightarrow> extractJSON (wl @ fence @ inner @ js ''```'' @ wr) = inner)
   \<and> (lbrace \<notin> set pl \<and> rbrace \<notin> set pr
      \<longrightarrow> extractJSON (pl @ [lbrace] @ b @ [rbrace] @ pr) = [lbrace] @ b @ [rbrace])"
proof (intro conjI impI)
  show "extractJSON raw = ResponseExtractor raw" by (rule extractJSON_refines)
next
  assume "(\<forall>x\<in>set wl. isWhiteSpace x) \<and> (\<forall>x\<in>set wr. isWhiteSpace x)
        \<and> (fence = js ''```json'' \<or> fence = js ''```'')
        \<and> lbrace \<notin> set a \<and> rbrace \<notin> set c"
  then show "extractJSON (wl @ fence @ (a @ [lbrace] @ b @ [rbrace] @ c) @ js ''```'' @ wr)
               = [lbrace] @ b @ [rbrace]"
    using extractJSON_fenced_span [of wl wr fence a c b] by blast
next
  assume h: "(\<forall>x\<in>set wl. isWhiteSpace x) \<and> (\<forall>x\<in>set wr. isWhiteSpace x)
        \<and> (fence = js ''```json'' \<or> fence = js ''```'' \<and> \<not> startsWith inner (js ''json''))
        \<and> (lbrace \<notin> set inner \<or> rbrace \<notin> set (dropWhile (\<lambda>x. x \<noteq> lbrace) inner))"
  then have "extractJSON (wl @ fence @ inner @ js ''```'' @ wr) = brace_span inner"
    using extractJSON_fenced [of wl wr fence inner] by blast
  moreover have "brace_span inner = inner" using h by (intro brace_span_none) blast
  ultimately show "extractJSON (wl @ fence @ inner @ js ''```'' @ wr) = inner" by simp
next
  assume "lbrace \<notin> set pl \<and> rbrace \<notin> set pr"
  then show "extractJSON (pl @ [lbrace] @ b @ [rbrace] @ pr) = [lbrace] @ b @ [rbrace]"
    using extractJSON_prose by blast
qed

theorem extractJSON_algorithm_witness:
  "extractJSON (js ''  ```json see {a} ok ``` '') = js ''{a}''
   \<and> extractJSON (js ''```[1]``` '') = js ''[1]''
   \<and> extractJSON (js ''so {a:{}} it is'') = js ''{a:{}}''"
proof -
  have f1: "extractJSON (js ''  ```json see {a} ok ``` '') = js ''{a}''"
    using extractJSON_algorithm [where wl = "js ''  ''" and fence = "js ''```json''"
        and a = "js '' see ''" and b = "js ''a''" and c = "js '' ok ''" and wr = "js '' ''",
        THEN conjunct2, THEN conjunct1]
    by (simp add: js_def lbrace_def rbrace_def isWhiteSpace_def)
  have f2: "extractJSON (js ''```[1]``` '') = js ''[1]''"
    using extractJSON_algorithm [where wl = "[]" and fence = "js ''```''"
        and inner = "js ''[1]''" and wr = "js '' ''",
        THEN conjunct2, THEN conjunct2, THEN conjunct1]
    by (simp add: js_def lbrace_def rbrace_def isWhiteSpace_def startsWith_def)
  have f3: "extractJSON (js ''so {a:{}} it is'') = js ''{a:{}}''"
    using extractJSON_algorithm [where pl = "js ''so ''" and b = "js ''a:{}''" and pr = "js '' it is''",
        THEN conjunct2, THEN conjunct2, THEN conjunct2]
    by (simp add: js_def lbrace_def rbrace_def)
  from f1 f2 f3 show ?thesis by simp
qed

theorem extractJSON_fenced_counterexample:
  "extractJSON (js ''```json'' @ js '' see {a} ok '' @ js ''```'') = js ''{a}''
   \<and> js ''{a}'' \<noteq> js '' see {a} ok ''"
  by (simp add: extractJSON_def js_def trim_def isWhiteSpace_def startsWith_def endsWith_def
      replace_start_def replace_end_def indexOf_def lastIndexOf_def substring_def lbrace_def rbrace_def)

section \<open>RetryExecutor: bounded retry with doubling delays\<close>

declare withRetry.simps [simp del]

lemma withRetry_Inr:
  "operation s = (Inr v, s') \<Longrightarrow>
   withRetry operation n d s = \<lparr>outcome = Inr v, final = s', attempts = [Inr v], delays = []\<rparr>"
  by (subst withRetry.simps) simp

lemma withRetry_thrown:
  "operation s = (Inl e, s') \<Longrightarrow> isRetryable e = Inl t \<Longrightarrow>
   withRetry operation n d s = \<lparr>outcome = Inl t, final = s', attempts = [Inl e], delays = []\<rparr>"
  by (subst withRetry.simps) simp

lemma withRetry_stop:
  "operation s = (Inl e, s') \<Longrightarrow> isRetryable e = Inr b \<Longrightarrow> \<not> (n > 0 \<and> b) \<Longrightarrow>
   withRetry operation n d s = \<lparr>outcome = Inl e, final = s', attempts = [Inl e], delays = []\<rparr>"
  by (subst withRetry.simps) auto

lemma withRetry_retry:
  "operation s = (Inl e, s') \<Longrightarrow> n > 0 \<Longrightarrow> isRetryable e = Inr True \<Longrightarrow>
   withRetry operation n d s =
     (withRetry operation (n - 1) (d * 2) s')
       \<lparr>attempts := Inl e # attempts (withRetry operation (n - 1) (d * 2) s'),
        delays := d # delays (withRetry operation (n - 1) (d * 2) s')\<rparr>"
  by (subst withRetry.simps) (simp add: Let_def)

lemma withRetry_cases:
  obtains (ok) v s' where "operation s = (Inr v, s')"
  | (thrown) e s' t where "operation s = (Inl e, s')" "isRetryable e = Inl t"
  | (stop) e s' b where "operation s = (Inl e, s')" "isRetryable e = Inr b" "\<not> (n > 0 \<and> b)"
  | (retry) e s' where "operation s = (Inl e, s')" "n > 0" "isRetryable e = Inr True"
proof (cases "operation s")
  case (Pair r s')
  show ?thesis
  proof (cases r)
    case (Inr v)
    with Pair ok show ?thesis by blast
  next
    case (Inl e)
    show ?thesis
    proof (cases "isRetryable e")
      case (Inl t)
      with Pair \<open>r = Inl e\<close> thrown show ?thesis by blast
    next
      case (Inr b)
      show ?thesis
      proof (cases "n > 0 \<and> b")
        case True
        with Pair \<open>r = Inl e\<close> Inr retry [of e s'] show ?thesis by simp
      next
        case False
        with Pair \<open>r = Inl e\<close> Inr stop show ?thesis by blast
      qed
    qed
  qed
qed

lemmas withRetry_base = withRetry_Inr withRetry_thrown withRetry_stop

lemma attempts_bound: "length (attempts (withRetry operation n d s)) \<le> n + 1"
proof (induction n arbitrary: d s)
  case 0
  show ?case
    by (cases rule: withRetry_cases [where operation = operation and s = s and n = 0])
      (simp_all add: withRetry_base)
next
  case (Suc n)
  show ?case
  proof (cases rule: withRetry_cases [where operation = operation and s = s and n = "Suc n"])
    case (retry e s')
    then show ?thesis using Suc [of "d * 2" s'] by (simp add: withRetry_retry)
  qed (simp_all add: withRetry_base)
qed

lemma attempts_nonempty: "attempts (withRetry operation n d s) \<noteq> []"
  by (cases rule: withRetry_cases [where operation = operation and s = s and n = n])
    (simp_all add: withRetry_base withRetry_retry)

lemma outcome_settled:
  "outcome (withRetry operation n d s) = settled (last (attempts (withRetry operation n d s)))"
proof (induction n arbitrary: d s)
  case 0
  show ?case
    by (cases rule: withRetry_cases [where operation = operation and s = s and n = 0])
      (simp_all add: withRetry_base settled_def)
next
  case (Suc n)
  show ?case
  proof (cases rule: withRetry_cases [where operation = operation and s = s and n = "Suc n"])
    case (retry e s')
    then show ?thesis using Suc [of "d * 2" s'] attempts_nonempty [of operation n "d * 2" s']
      by (simp add: withRetry_retry)
  qed (simp_all add: withRetry_base settled_def)
qed

lemma delays_doubling:
  "delays (withRetry operation n d s)
     = map (\<lambda>k. d * 2 ^ k) [0..<length (attempts (withRetry operation n d s)) - 1]"
proof (induction n arbitrary: d s)
  case 0
  show ?case
    by (cases rule: withRetry_cases [where operation = operation and s = s and n = 0])
      (simp_all add: withRetry_base)
next
  case (Suc n)
  show ?case
  proof (cases rule: withRetry_cases [where operation = operation and s = s and n = "Suc n"])
    case (retry e s')
    let ?r = "withRetry operation n (d * 2) s'"
    obtain m where m: "length (attempts ?r) = Suc m"
      using attempts_nonempty [of operation n "d * 2" s'] by (cases "attempts ?r") auto
    have "delays ?r = map (\<lambda>k. d * 2 * 2 ^ k) [0..<m]" using Suc [of "d * 2" s'] m by simp
    also have "\<dots> = map (\<lambda>k. d * 2 ^ k) (map Suc [0..<m])" by simp
    finally have "d # delays ?r = map (\<lambda>k. d * 2 ^ k) [0..<Suc m]"
      by (simp only: map_Suc_upt upt_conv_Cons [of 0 "Suc m"]) simp
    then show ?thesis using retry m by (simp add: withRetry_retry)
  qed (simp_all add: withRetry_base)
qed

lemma retried_only_retryable:
  "k < length (attempts (withRetry operation n d s)) - 1 \<Longrightarrow>
   \<exists>e. attempts (withRetry operation n d s) ! k = Inl e \<and> isRetryable e = Inr True"
proof (induction n arbitrary: d s k)
  case 0
  then show ?case
    by (cases rule: withRetry_cases [where operation = operation and s = s and n = 0])
      (simp_all add: withRetry_base)
next
  case (Suc n)
  show ?case
  proof (cases rule: withRetry_cases [where operation = operation and s = s and n = "Suc n"])
    case (retry e s')
    show ?thesis
    proof (cases k)
      case 0
      then show ?thesis using retry by (simp add: withRetry_retry)
    next
      case (Suc j)
      then have "j < length (attempts (withRetry operation n (d * 2) s')) - 1"
        using Suc.prems retry by (simp add: withRetry_retry)
      from Suc.IH [OF this] show ?thesis using retry Suc by (simp add: withRetry_retry)
    qed
  next
    case (ok v s')
    then show ?thesis using Suc.prems by (simp add: withRetry_Inr)
  next
    case (stop e s' b)
    then show ?thesis using Suc.prems by (simp add: withRetry_stop)
  next
    case (thrown e s' t)
    then show ?thesis using Suc.prems by (simp add: withRetry_thrown)
  qed
qed

lemma failure_final:
  "last (attempts (withRetry operation n d s)) = Inl e \<Longrightarrow>
   isRetryable e \<noteq> Inr True \<or> length (attempts (withRetry operation n d s)) = n + 1"
proof (induction n arbitrary: d s)
  case 0
  then show ?case
    by (cases rule: withRetry_cases [where operation = operation and s = s and n = 0])
      (simp_all add: withRetry_base)
next
  case (Suc n)
  show ?case
  proof (cases rule: withRetry_cases [where operation = operation and s = s and n = "Suc n"])
    case (retry e' s')
    then show ?thesis using Suc.IH [of "d * 2" s'] Suc.prems
        attempts_nonempty [of operation n "d * 2" s']
      by (simp add: withRetry_retry)
  next
    case (ok v s')
    then show ?thesis using Suc.prems by (simp add: withRetry_Inr)
  next
    case (stop e' s' b)
    then show ?thesis using Suc.prems by (cases b) (auto simp add: withRetry_stop)
  next
    case (thrown e' s' t)
    then show ?thesis using Suc.prems by (auto simp add: withRetry_thrown)
  qed
qed

lemma retryable_status: "status e = Some 503 \<or> status e = Some 429 \<Longrightarrow> isRetryable e = Inr True"
  by (auto simp: isRetryable_def)

lemma fails_twice_then_succeeds:
  assumes "operation s0 = (Inl e1, s1)" "operation s1 = (Inl e2, s2)" "operation s2 = (Inr v, s3)"
    and "status e1 = Some 503" "status e2 = Some 503"
  shows "withRetry operation 2 1000 s0
     = \<lparr>outcome = Inr v, final = s3, attempts = [Inl e1, Inl e2, Inr v], delays = [1000, 2000]\<rparr>"
proof -
  have r: "isRetryable e1 = Inr True" "isRetryable e2 = Inr True"
    using assms(4,5) by (simp_all add: retryable_status)
  have a: "withRetry operation 0 4000 s2 = \<lparr>outcome = Inr v, final = s3, attempts = [Inr v], delays = []\<rparr>"
    using assms(3) by (rule withRetry_Inr)
  have b: "withRetry operation 1 2000 s1
      = \<lparr>outcome = Inr v, final = s3, attempts = [Inl e2, Inr v], delays = [2000]\<rparr>"
    using withRetry_retry [where operation = operation and s = s1 and e = e2 and s' = s2
        and n = 1 and d = 2000] assms(2) r(2) a by simp
  show ?thesis
    using withRetry_retry [where operation = operation and s = s0 and e = e1 and s' = s1
        and n = 2 and d = 1000] assms(1) r(1) b by simp
qed

lemma fails_thrice:
  assumes "operation s0 = (Inl e1, s1)" "operation s1 = (Inl e2, s2)" "operation s2 = (Inl e3, s3)"
    and "isRetryable e1 = Inr True" "isRetryable e2 = Inr True"
  shows "withRetry operation 2 1000 s0
     = \<lparr>outcome = settled (Inl e3), final = s3, attempts = [Inl e1, Inl e2, Inl e3],
        delays = [1000, 2000]\<rparr>"
proof -
  have a: "withRetry operation 0 4000 s2
      = \<lparr>outcome = settled (Inl e3), final = s3, attempts = [Inl e3], delays = []\<rparr>"
  proof (cases "isRetryable e3")
    case (Inl t)
    then show ?thesis
      using withRetry_thrown [where operation = operation and s = s2 and e = e3 and s' = s3
          and t = t and n = 0 and d = 4000] assms(3)
      by (simp add: settled_def)
  next
    case (Inr b)
    then show ?thesis
      using withRetry_stop [where operation = operation and s = s2 and e = e3 and s' = s3
          and b = b and n = 0 and d = 4000] assms(3)
      by (simp add: settled_def)
  qed
  have b: "withRetry operation 1 2000 s1
      = \<lparr>outcome = settled (Inl e3), final = s3, attempts = [Inl e2, Inl e3], delays = [2000]\<rparr>"
    using withRetry_retry [where operation = operation and s = s1 and e = e2 and s' = s2
        and n = 1 and d = 2000] assms(2,5) a by simp
  show ?thesis
    using withRetry_retry [where operation = operation and s = s0 and e = e1 and s' = s1
        and n = 2 and d = 1000] assms(1,4) b by simp
qed

lemma isRetryable_True_iff:
  "isRetryable error = Inr True \<longleftrightarrow>
     status error = Some 503 \<or> status error = Some 429
     \<or> (\<exists>m. message error = Text m \<and> includes_str m (js ''fetch failed''))
     \<or> (\<exists>f. message error = Other f \<and> f (js ''fetch failed'') = Inr True)"
  by (cases "message error") (auto simp: isRetryable_def message_includes_def)

lemma settled_classified:
  "(\<exists>v. r = Inr v) \<or> (\<exists>e b. r = Inl e \<and> isRetryable e = Inr b) \<Longrightarrow> settled r = r"
  by (auto simp: settled_def)

text \<open>
  C3. With \<open>retries\<close> retries and initial delay \<open>delay\<close>, \<open>withRetry\<close> invokes the
  operation at least once and at most \<open>retries + 1\<close> times (3 times for the default 2);
  every invocation but the last failed with a retryable failure, that is one with status
  503 or 429 or, failing that, one whose message includes \<open>fetch failed\<close>; the delays
  awaited between the invocations are \<open>delay\<close>, \<open>2 * delay\<close>, \<open>4 * delay\<close>, ... (1000 ms,
  then 2000 ms); and the result is the outcome of the last invocation, unless that is a
  failure whose classification itself throws. An operation that fails twice with status
  503 and then succeeds is invoked exactly three times and yields the success value.
\<close>

theorem withRetry_backoff:
  "attempts (withRetry operation retries delay s) \<noteq> []
   \<and> length (attempts (withRetry operation retries delay s)) \<le> retries + 1
   \<and> outcome (withRetry operation retries delay s)
       = settled (last (attempts (withRetry operation retries delay s)))
   \<and> ((\<exists>v. last (attempts (withRetry operation retries delay s)) = Inr v)
        \<or> (\<exists>e b. last (attempts (withRetry operation retries delay s)) = Inl e
                 \<and> isRetryable e = Inr b)
      \<longrightarrow> outcome (withRetry operation retries delay s)
            = last (attempts (withRetry operation retries delay s)))
   \<and> (\<forall>k. k < length (attempts (withRetry operation retries delay s)) - 1 \<longrightarrow>
         (\<exists>e. attempts (withRetry operation retries delay s) ! k = Inl e
              \<and> isRetryable e = Inr True))
   \<and> delays (withRetry operation retries delay s)
       = map (\<lambda>k. delay * 2 ^ k) [0..<length (attempts (withRetry operation retries delay s)) - 1]
   \<and> (isRetryable error = Inr True \<longleftrightarrow>
         status error = Some 503 \<or> status error = Some 429
         \<or> (\<exists>m. message error = Text m \<and> includes_str m (js ''fetch failed''))
         \<or> (\<exists>f. message error = Other f \<and> f (js ''fetch failed'') = Inr True))
   \<and> (operation s0 = (Inl e1, s1) \<and> operation s1 = (Inl e2, s2) \<and> operation s2 = (Inr v, s3)
        \<and> status e1 = Some 503 \<and> status e2 = Some 503
      \<longrightarrow> withRetry operation 2 1000 s0
            = \<lparr>outcome = Inr v, final = s3, attempts = [Inl e1, Inl e2, Inr v],
               delays = [1000, 2000]\<rparr>)"
proof (intro conjI allI impI)
  show "isRetryable error = Inr True \<longleftrightarrow>
         status error = Some 503 \<or> status error = Some 429
         \<or> (\<exists>m. message error = Text m \<and> includes_str m (js ''fetch failed''))
         \<or> (\<exists>f. message error = Other f \<and> f (js ''fetch failed'') = Inr True)"
    by (rule isRetryable_True_iff)
next
  assume "operation s0 = (Inl e1, s1) \<and> operation s1 = (Inl e2, s2) \<and> operation s2 = (Inr v, s3)
        \<and> status e1 = Some 503 \<and> status e2 = Some 503"
  then show "withRetry operation 2 1000 s0
            = \<lparr>outcome = Inr v, final = s3, attempts = [Inl e1, Inl e2, Inr v],
               delays = [1000, 2000]\<rparr>"
    using fails_twice_then_succeeds [of operation s0 e1 s1 e2 s2 v s3] by blast
next
  assume "(\<exists>v. last (attempts (withRetry operation retries delay s)) = Inr v)
        \<or> (\<exists>e b. last (attempts (withRetry operation retries delay s)) = Inl e
                 \<and> isRetryable e = Inr b)"
  then show "outcome (withRetry operation retries delay s)
            = last (attempts (withRetry operation retries delay s))"
    using settled_classified by (simp only: outcome_settled)
qed (simp_all only: attempts_nonempty attempts_bound outcome_settled [symmetric]
      delays_doubling [symmetric] retried_only_retryable not_False_eq_True)

theorem withRetry_backoff_witness:
  "withRetry scripted 2 1000
     [Inl (Failure (Some 503) Absent), Inl (Failure (Some 503) Absent), Inr (7 :: nat)]
   = \<lparr>outcome = Inr 7, final = [],
      attempts = [Inl (Failure (Some 503) Absent), Inl (Failure (Some 503) Absent), Inr 7],
      delays = [1000, 2000]\<rparr>"
  using withRetry_backoff [where operation = scripted
      and ?s0.0 = "[Inl (Failure (Some 503) Absent), Inl (Failure (Some 503) Absent), Inr (7 :: nat)]"
      and ?e1.0 = "Failure (Some 503) Absent"
      and ?s1.0 = "[Inl (Failure (Some 503) Absent), Inr (7 :: nat)]"
      and ?e2.0 = "Failure (Some 503) Absent"
      and ?s2.0 = "[Inr (7 :: nat)]" and v = 7 and ?s3.0 = "[]"]
  by simp

lemma withRetry_reraises_classified:
  "(last (attempts (withRetry operation retries delay s)) = Inl error
      \<and> isRetryable error = Inr b
      \<longrightarrow> outcome (withRetry operation retries delay s) = Inl error
          \<and> (\<not> b \<or> length (attempts (withRetry operation retries delay s)) = retries + 1))
   \<and> (operation s = (Inl error, s') \<and> isRetryable error = Inr False
      \<longrightarrow> withRetry operation retries delay s
            = \<lparr>outcome = Inl error, final = s', attempts = [Inl error], delays = []\<rparr>)"
proof (intro conjI impI)
  assume h: "last (attempts (withRetry operation retries delay s)) = Inl error
      \<and> isRetryable error = Inr b"
  then show "outcome (withRetry operation retries delay s) = Inl error"
    by (simp add: outcome_settled settled_def)
  from h failure_final [of operation retries delay s error]
  show "\<not> b \<or> length (attempts (withRetry operation retries delay s)) = retries + 1"
    by auto
next
  assume "operation s = (Inl error, s') \<and> isRetryable error = Inr False"
  then show "withRetry operation retries delay s
            = \<lparr>outcome = Inl error, final = s', attempts = [Inl error], delays = []\<rparr>"
    using withRetry_stop [where operation = operation and s = s and e = error and s' = s'
        and b = False and n = retries and d = delay]
    by simp
qed

text \<open>
  C4. A failure with no retryable status whose message is the number 42 is not re-raised:
  computing \<open>isRetryable\<close> throws a \<open>TypeError\<close>, and that is what \<open>withRetry\<close> rejects with,
  after one invocation and no delay. (For a failure whose classification does not throw,
  the failure of the last invocation is re-raised unchanged, at once when it is not
  retryable: \<open>withRetry_reraises_classified\<close>.)
\<close>

theorem withRetry_unclassified_failure:
  "withRetry scripted 2 1000 [Inl (Failure None message_42), Inr (7 :: nat)]
     = \<lparr>outcome = Inl not_a_function, final = [Inr 7],
        attempts = [Inl (Failure None message_42)], delays = []\<rparr>
   \<and> not_a_function \<noteq> Failure None message_42"
proof -
  have "isRetryable (Failure None message_42) = Inl not_a_function"
    by (simp add: isRetryable_def message_includes_def message_42_def)
  then have "withRetry scripted 2 1000 [Inl (Failure None message_42), Inr (7 :: nat)]
     = \<lparr>outcome = Inl not_a_function, final = [Inr 7],
        attempts = [Inl (Failure None message_42)], delays = []\<rparr>"
    by (intro withRetry_thrown) simp_all
  then show ?thesis by (simp add: not_a_function_def Error_def message_42_def)
qed

section \<open>SourceDeduplicator: last value wins, first-seen order\<close>

lemma first_seen_set [simp]: "set (first_seen xs) = set xs"
  by (induction xs) auto

lemma first_seen_distinct [simp]: "distinct (first_seen xs)"
  by (induction xs) auto

lemma first_seen_snoc:
  "first_seen (xs @ [x]) = (if x \<in> set xs then first_seen xs else first_seen xs @ [x])"
  by (induction xs) auto

lemma first_seen_length: "length (first_seen xs) \<le> length xs"
proof (induction xs)
  case Nil
  show ?case by simp
next
  case (Cons x xs)
  have "length (filter (\<lambda>y. y \<noteq> x) (first_seen xs)) \<le> length (first_seen xs)"
    by (rule length_filter_le)
  from this Cons have "length (filter (\<lambda>y. y \<noteq> x) (first_seen xs)) \<le> length xs"
    by (rule le_trans)
  then show ?case by simp
qed

lemma set_prop_tabulate:
  assumes "distinct ks"
  shows "set_prop (map (\<lambda>k. (k, g k)) ks) k0 v
     = (if k0 \<in> set ks then map (\<lambda>k. (k, (g(k0 := v)) k)) ks
        else map (\<lambda>k. (k, g k)) ks @ [(k0, v)])"
  using assms by (induction ks) auto

lemma new_Map_snoc: "new_Map (es @ [(k, v)]) = set_prop (new_Map es) k v"
  by (simp add: new_Map_def)

lemma new_Map_sources:
  "new_Map (map (\<lambda>item. (uri item, item)) kept)
     = map (\<lambda>k. (k, last (filter (\<lambda>s. uri s = k) kept))) (first_seen (map uri kept))"
proof (induction kept rule: rev_induct)
  case Nil
  show ?case by (simp add: new_Map_def)
next
  case (snoc x kept)
  let ?g = "\<lambda>k. last (filter (\<lambda>s. uri s = k) kept)"
  let ?g' = "\<lambda>k. last (filter (\<lambda>s. uri s = k) (kept @ [x]))"
  have g': "?g' = ?g(uri x := x)" by (rule ext) simp
  have "new_Map (map (\<lambda>item. (uri item, item)) (kept @ [x]))
      = set_prop (map (\<lambda>k. (k, ?g k)) (first_seen (map uri kept))) (uri x) x"
    using snoc by (simp add: new_Map_snoc)
  also have "\<dots> = (if uri x \<in> set (map uri kept)
        then map (\<lambda>k. (k, (?g(uri x := x)) k)) (first_seen (map uri kept))
        else map (\<lambda>k. (k, ?g k)) (first_seen (map uri kept)) @ [(uri x, x)])"
    using set_prop_tabulate [of "first_seen (map uri kept)" ?g "uri x" x] by simp
  also have "\<dots> = map (\<lambda>k. (k, ?g' k)) (first_seen (map uri (kept @ [x])))"
  proof (cases "uri x \<in> set (map uri kept)")
    case True
    then show ?thesis unfolding g' by (simp add: first_seen_snoc)
  next
    case False
    then have "\<And>k. k \<in> set (first_seen (map uri kept)) \<Longrightarrow> ?g' k = ?g k" by auto
    then have "map (\<lambda>k. (k, ?g' k)) (first_seen (map uri kept))
        = map (\<lambda>k. (k, ?g k)) (first_seen (map uri kept))" by (intro map_cong) simp_all
    then show ?thesis using False by (simp add: first_seen_snoc)
  qed
  finally show ?case .
qed

lemma uniqueSources_collapse:
  "uniqueSources kept
     = map (\<lambda>k. last (filter (\<lambda>s. uri s = k) kept)) (first_seen (map uri kept))"
  by (simp add: uniqueSources_def Map_values_def new_Map_sources comp_def)

lemma push_sources_filter:
  "push_sources chunks = map source_of (filter has_uri_and_title chunks)"
proof (induction chunks)
  case Nil
  show ?case by simp
next
  case (Cons c cs)
  show ?case
  proof (cases "web c")
    case None
    then show ?thesis using Cons by (simp add: has_uri_and_title_def)
  next
    case (Some w)
    then show ?thesis using Cons
      by (cases "web_uri w"; cases "web_title w")
        (simp_all add: has_uri_and_title_def source_of_def truthy_def)
  qed
qed

lemma uniqueSources_length: "length (uniqueSources kept) \<le> length kept"
  using first_seen_length [of "map uri kept"] by (simp add: uniqueSources_collapse)

lemma has_uri_and_title_iff:
  "has_uri_and_title chunk \<longleftrightarrow>
     (\<exists>w u t. web chunk = Some w \<and> web_uri w = Some u \<and> web_title w = Some t \<and> u \<noteq> [] \<and> t \<noteq> [])"
  by (auto simp: has_uri_and_title_def split: option.splits)

lemma sources_of_collapse:
  "sources_of result =
     (let kept = map source_of (filter has_uri_and_title
                   (case groundingChunks result of None \<Rightarrow> [] | Some chunks \<Rightarrow> chunks))
      in map (\<lambda>k. last (filter (\<lambda>s. uri s = k) kept)) (first_seen (map uri kept)))"
  by (cases "groundingChunks result")
    (simp_all add: sources_of_def uniqueSources_collapse push_sources_filter Let_def)

lemma sources_of_length:
  "length (sources_of result)
     \<le> length (case groundingChunks result of None \<Rightarrow> [] | Some chunks \<Rightarrow> chunks)"
proof (cases "groundingChunks result")
  case None
  then show ?thesis by (simp add: sources_of_def uniqueSources_def Map_values_def new_Map_def)
next
  case (Some chunks)
  have "length (uniqueSources (push_sources chunks)) \<le> length (push_sources chunks)"
    by (rule uniqueSources_length)
  also have "\<dots> \<le> length chunks" by (simp add: push_sources_filter)
  finally show ?thesis using Some by (simp add: sources_of_def)
qed

lemma sources_example:
  "sources_of \<lparr>response_text = x, groundingChunks = Some
      [\<lparr>web = Some \<lparr>web_uri = Some (js ''a''), web_title = Some (js ''A1'')\<rparr>\<rparr>,
       \<lparr>web = Some \<lparr>web_uri = Some (js ''b''), web_title = Some (js ''B'')\<rparr>\<rparr>,
       \<lparr>web = Some \<lparr>web_uri = Some (js ''a''), web_title = Some (js ''A2'')\<rparr>\<rparr>]\<rparr>
   = [\<lparr>title = js ''A2'', uri = js ''a''\<rparr>, \<lparr>title = js ''B'', uri = js ''b''\<rparr>]"
  by (simp add: sources_of_def uniqueSources_def Map_values_def new_Map_def truthy_def js_def)

text \<open>
  C6. The sources attached to a result are computed from the grounding chunks as
  follows: the chunks that lack a uri or a title (absent, or the empty string) are
  dropped; of the rest, for every uri the last chunk with that uri is kept; and the
  survivors come in the order in which their uris first occur. There are at most as many
  sources as chunks. The chunks \<open>(a, A1), (b, B), (a, A2)\<close> give \<open>(a, A2), (b, B)\<close>.
\<close>

theorem sources_deduplicated:
  "sources_of result =
     (let kept = map source_of (filter has_uri_and_title
                   (case groundingChunks result of None \<Rightarrow> [] | Some chunks \<Rightarrow> chunks))
      in map (\<lambda>k. last (filter (\<lambda>s. uri s = k) kept)) (first_seen (map uri kept)))
   \<and> length (sources_of result)
       \<le> length (case groundingChunks result of None \<Rightarrow> [] | Some chunks \<Rightarrow> chunks)
   \<and> (has_uri_and_title chunk \<longleftrightarrow>
        (\<exists>w u t. web chunk = Some w \<and> web_uri w = Some u \<and> web_title w = Some t
                 \<and> u \<noteq> [] \<and> t \<noteq> []))
   \<and> sources_of \<lparr>response_text = x, groundingChunks = Some
        [\<lparr>web = Some \<lparr>web_uri = Some (js ''a''), web_title = Some (js ''A1'')\<rparr>\<rparr>,
         \<lparr>web = Some \<lparr>web_uri = Some (js ''b''), web_title = Some (js ''B'')\<rparr>\<rparr>,
         \<lparr>web = Some \<lparr>web_uri = Some (js ''a''), web_title = Some (js ''A2'')\<rparr>\<rparr>]\<rparr>
      = [\<lparr>title = js ''A2'', uri = js ''a''\<rparr>, \<lparr>title = js ''B'', uri = js ''b''\<rparr>]"
  using sources_of_collapse sources_of_length has_uri_and_title_iff sources_example
  by (intro conjI)

theorem sources_deduplicated_witness:
  "sources_of \<lparr>response_text = None, groundingChunks = Some
      [\<lparr>web = Some \<lparr>web_uri = Some (js ''a''), web_title = Some (js ''A1'')\<rparr>\<rparr>,
       \<lparr>web = None\<rparr>,
       \<lparr>web = Some \<lparr>web_uri = Some (js ''c''), web_title = None\<rparr>\<rparr>,
       \<lparr>web = Some \<lparr>web_uri = Some (js ''b''), web_title = Some (js ''B'')\<rparr>\<rparr>,
       \<lparr>web = Some \<lparr>web_uri = None, web_title = Some (js ''D'')\<rparr>\<rparr>,
       \<lparr>web = Some \<lparr>web_uri = Some (js ''a''), web_title = Some (js ''A2'')\<rparr>\<rparr>]\<rparr>
   = [\<lparr>title = js ''A2'', uri = js ''a''\<rparr>, \<lparr>title = js ''B'', uri = js ''b''\<rparr>]"
  using sources_deduplicated [where result = "\<lparr>response_text = None, groundingChunks = Some
      [\<lparr>web = Some \<lparr>web_uri = Some (js ''a''), web_title = Some (js ''A1'')\<rparr>\<rparr>,
       \<lparr>web = None\<rparr>,
       \<lparr>web = Some \<lparr>web_uri = Some (js ''c''), web_title = None\<rparr>\<rparr>,
       \<lparr>web = Some \<lparr>web_uri = Some (js ''b''), web_title = Some (js ''B'')\<rparr>\<rparr>,
       \<lparr>web = Some \<lparr>web_uri = None, web_title = Some (js ''D'')\<rparr>\<rparr>,
       \<lparr>web = Some \<lparr>web_uri = Some (js ''a''), web_title = Some (js ''A2'')\<rparr>\<rparr>]\<rparr>",
      THEN conjunct1]
  by (simp add: has_uri_and_title_def source_of_def js_def)

section \<open>ErrorTranslator: the localized fallback\<close>

lemma js_neq_simps:
  "js ''safety'' \<noteq> js ''default''" "js ''sources'' \<noteq> js ''summary''"
  "js ''sources'' \<noteq> js ''recommendations''" "js ''summary'' \<noteq> js ''recommendations''"
  by (simp_all add: js_def)

lemma errorType_of_cases:
  "errorType_of error = Inr t \<Longrightarrow> t = js ''safety'' \<or> t = js ''default''"
  by (auto simp: errorType_of_def split: sum.splits bool.splits)

lemma errorType_of_safety:
  "errorType_of error = Inr (js ''safety'') \<longleftrightarrow>
     message_includes error (js ''SAFETY'') = Inr True
     \<or> (message_includes error (js ''SAFETY'') = Inr False
         \<and> message_includes error (js ''BLOCKED'') = Inr True)"
  using js_neq_simps(1)
  by (auto simp: errorType_of_def split: sum.splits bool.splits)

lemma errorType_of_Text:
  "message error = Text m \<Longrightarrow>
   errorType_of error
     = Inr (if includes_str m (js ''SAFETY'') \<or> includes_str m (js ''BLOCKED'')
            then js ''safety'' else js ''default'')"
  by (auto simp add: errorType_of_def message_includes_def split: bool.splits)

lemma errorType_of_Absent: "message error = Absent \<Longrightarrow> errorType_of error = Inr (js ''default'')"
  by (simp add: errorType_of_def message_includes_def)

lemma keys_default: "map fst errorMap_default = Languages"
  by (simp add: errorMap_default_def Languages_def)

lemma keys_safety: "map fst errorMap_safety = Languages"
  by (simp add: errorMap_safety_def Languages_def)

lemma errorMap_supported:
  assumes "language \<in> set Languages"
  shows "\<exists>s. map_of errorMap_safety language = Some s \<and> errorMap P (js ''safety'') language = String s"
    and "\<exists>s. map_of errorMap_default language = Some s \<and> errorMap P (js ''default'') language = String s"
proof -
  have "language \<in> fst ` set errorMap_safety" using assms keys_safety by (metis set_map)
  then obtain s where "map_of errorMap_safety language = Some s"
    by (metis domIff dom_map_of_conv_image_fst not_Some_eq)
  then show "\<exists>s. map_of errorMap_safety language = Some s \<and> errorMap P (js ''safety'') language = String s"
    by (simp add: errorMap_def)
  have "language \<in> fst ` set errorMap_default" using assms keys_default by (metis set_map)
  then obtain s where "map_of errorMap_default language = Some s"
    by (metis domIff dom_map_of_conv_image_fst not_Some_eq)
  then show "\<exists>s. map_of errorMap_default language = Some s \<and> errorMap P (js ''default'') language = String s"
    using js_neq_simps(1) by (simp add: errorMap_def)
qed

lemma errorMap_unsupported:
  assumes "language \<notin> set Languages"
  shows "errorMap P errorType language
     = (case Object_prototype P language of Some v \<Rightarrow> v | None \<Rightarrow> Undefined)"
proof -
  have "map_of errorMap_safety language = None" "map_of errorMap_default language = None"
    using assms keys_safety keys_default by (metis map_of_eq_None_iff set_map)+
  then show ?thesis by (simp add: errorMap_def)
qed

lemma errorMap_English:
  "errorMap P (js ''default'') (js ''English'')
     = String (js ''I'' @ [0x27] @ js ''m having trouble connecting to the movie database. Please check your internet connection and try again.'')"
  "errorMap P (js ''safety'') (js ''English'')
     = String (js ''I cannot provide recommendations for that specific query due to safety guidelines. Please try a different topic.'')"
  by (simp_all add: errorMap_def errorMap_default_def errorMap_safety_def js_def)

lemma sendMessage_caught:
  "sendMessage_try P msg language st = (Inl error, st') \<Longrightarrow> errorType_of error = Inr t \<Longrightarrow>
   sendMessage P msg language st = (Inr (errorResult P t language), st')"
  by (simp add: sendMessage_def)

lemma sendMessage_catch_throws:
  "sendMessage_try P msg language st = (Inl error, st') \<Longrightarrow> errorType_of error = Inl thrown \<Longrightarrow>
   sendMessage P msg language st = (Inl thrown, st')"
  by (simp add: sendMessage_def)


lemma script_fails_once:
  assumes "\<not> includes_str m (js ''fetch failed'')"
  shows "sendMessage_try script_platform msg language
      \<lparr>chat = False, world = [Inl (Failure None (Text m))]\<rparr>
     = (Inl (Failure None (Text m)), \<lparr>chat = True, world = []\<rparr>)"
proof -
  have "withRetry (chat_turn script_platform (languagePrompt language msg)) 2 1000
        \<lparr>chat = True, world = [Inl (Failure None (Text m))]\<rparr>
      = \<lparr>outcome = Inl (Failure None (Text m)), final = \<lparr>chat = True, world = []\<rparr>,
         attempts = [Inl (Failure None (Text m))], delays = []\<rparr>"
    using assms
    by (intro withRetry_stop [where b = False])
      (simp_all add: chat_turn_def script_platform_def isRetryable_def message_includes_def)
  then show ?thesis
    by (simp add: sendMessage_try_def initChat_def script_platform_def)
qed

text \<open>
  C7 (as the code has it). A failure caught by \<open>sendMessage\<close> whose error type can be
  decided (its message is a string or absent, or a value on which \<open>includes\<close> returns) is
  turned into a result with an empty recommendations list whose summary is
  \<open>errorMap[errorType][language]\<close>. The error type is \<open>safety\<close> exactly when the message
  includes \<open>SAFETY\<close> or \<open>BLOCKED\<close>, and \<open>default\<close> otherwise. For each of the five languages
  of the type \<open>Language\<close> the summary is the string of that language in the table of the
  error type. There is no fallback to another language: for any other language the
  summary is what the property read finds, \<open>undefined\<close> unless \<open>Object.prototype\<close> has a
  property of that name.
\<close>

theorem sendMessage_error_translation:
  "(sendMessage_try P msg language st = (Inl error, st') \<and> errorType_of error = Inr errorType
      \<longrightarrow> sendMessage P msg language st = (Inr (errorResult P errorType language), st'))
   \<and> errorResult P errorType language
       = Object [(js ''summary'', errorMap P errorType language),
                 (js ''recommendations'', Array [] [])]
   \<and> (errorType_of error = Inr errorType
      \<longrightarrow> errorType = js ''safety'' \<or> errorType = js ''default'')
   \<and> js ''safety'' \<noteq> js ''default''
   \<and> (message error = Text m
      \<longrightarrow> errorType_of error
            = Inr (if includes_str m (js ''SAFETY'') \<or> includes_str m (js ''BLOCKED'')
                   then js ''safety'' else js ''default''))
   \<and> (message error = Absent \<longrightarrow> errorType_of error = Inr (js ''default''))
   \<and> (errorType_of error = Inr (js ''safety'') \<longleftrightarrow>
        message_includes error (js ''SAFETY'') = Inr True
        \<or> (message_includes error (js ''SAFETY'') = Inr False
            \<and> message_includes error (js ''BLOCKED'') = Inr True))
   \<and> (language \<in> set Languages \<longrightarrow>
        (\<exists>s. map_of errorMap_safety language = Some s
             \<and> errorMap P (js ''safety'') language = String s)
        \<and> (\<exists>s. map_of errorMap_default language = Some s
             \<and> errorMap P (js ''default'') language = String s))
   \<and> (language \<notin> set Languages \<longrightarrow>
        errorMap P errorType language
          = (case Object_prototype P language of Some v \<Rightarrow> v | None \<Rightarrow> Undefined))
   \<and> errorMap P (js ''default'') (js ''English'')
       = String (js ''I'' @ [0x27] @ js ''m having trouble connecting to the movie database. Please check your internet connection and try again.'')
   \<and> errorMap P (js ''safety'') (js ''English'')
       = String (js ''I cannot provide recommendations for that specific query due to safety guidelines. Please try a different topic.'')"
proof (intro conjI impI)
  assume "sendMessage_try P msg language st = (Inl error, st') \<and> errorType_of error = Inr errorType"
  then show "sendMessage P msg language st = (Inr (errorResult P errorType language), st')"
    using sendMessage_caught by blast
next
  show "errorResult P errorType language
       = Object [(js ''summary'', errorMap P errorType language),
                 (js ''recommendations'', Array [] [])]"
    by (simp add: errorResult_def)
next
  assume "errorType_of error = Inr errorType"
  then show "errorType = js ''safety'' \<or> errorType = js ''default''"
    by (rule errorType_of_cases)
next
  show "js ''safety'' \<noteq> js ''default''" by (rule js_neq_simps)
next
  assume "message error = Text m"
  then show "errorType_of error
            = Inr (if includes_str m (js ''SAFETY'') \<or> includes_str m (js ''BLOCKED'')
                   then js ''safety'' else js ''default'')"
    by (rule errorType_of_Text)
next
  assume "message error = Absent"
  then show "errorType_of error = Inr (js ''default'')" by (rule errorType_of_Absent)
next
  show "errorType_of error = Inr (js ''safety'') \<longleftrightarrow>
        message_includes error (js ''SAFETY'') = Inr True
        \<or> (message_includes error (js ''SAFETY'') = Inr False
            \<and> message_includes error (js ''BLOCKED'') = Inr True)"
    by (rule errorType_of_safety)
next
  assume l: "language \<in> set Languages"
  show "\<exists>s. map_of errorMap_safety language = Some s \<and> errorMap P (js ''safety'') language = String s"
    by (rule errorMap_supported(1) [OF l])
  show "\<exists>s. map_of errorMap_default language = Some s \<and> errorMap P (js ''default'') language = String s"
    by (rule errorMap_supported(2) [OF l])
next
  assume "language \<notin> set Languages"
  then show "errorMap P errorType language
          = (case Object_prototype P language of Some v \<Rightarrow> v | None \<Rightarrow> Undefined)"
    by (rule errorMap_unsupported)
next
  show "errorMap P (js ''default'') (js ''English'')
       = String (js ''I'' @ [0x27] @ js ''m having trouble connecting to the movie database. Please check your internet connection and try again.'')"
    by (rule errorMap_English)
  show "errorMap P (js ''safety'') (js ''English'')
       = String (js ''I cannot provide recommendations for that specific query due to safety guidelines. Please try a different topic.'')"
    by (rule errorMap_English)
qed

theorem sendMessage_error_translation_witness:
  "sendMessage script_platform (js ''hi'') (js ''English'')
      \<lparr>chat = False, world = [Inl (Failure None (Text (js ''blocked: SAFETY'')))]\<rparr>
   = (Inr (Object [(js ''summary'', String (js ''I cannot provide recommendations for that specific query due to safety guidelines. Please try a different topic.'')),
                   (js ''recommendations'', Array [] [])]),
      \<lparr>chat = True, world = []\<rparr>)"
proof -
  let ?e = "Failure None (Text (js ''blocked: SAFETY''))"
  let ?st = "\<lparr>chat = False, world = [Inl ?e]\<rparr>"
  have i: "includes_str (js ''blocked: SAFETY'') (js ''SAFETY'')"
    "\<not> includes_str (js ''blocked: SAFETY'') (js ''fetch failed'')"
    by (simp_all add: js_def startsWith_def)
  have t: "sendMessage_try script_platform (js ''hi'') (js ''English'') ?st
      = (Inl ?e, \<lparr>chat = True, world = []\<rparr>)"
    using i(2) by (rule script_fails_once)
  note T = sendMessage_error_translation [where P = script_platform and msg = "js ''hi''"
      and language = "js ''English''" and st = ?st and error = ?e and st' = "\<lparr>chat = True, world = []\<rparr>"
      and errorType = "js ''safety''" and m = "js ''blocked: SAFETY''"]
  from T i(1) have s: "errorType_of ?e = Inr (js ''safety'')" by simp
  from T t s have "sendMessage script_platform (js ''hi'') (js ''English'') ?st
      = (Inr (errorResult script_platform (js ''safety'') (js ''English'')), \<lparr>chat = True, world = []\<rparr>)"
    by blast
  moreover from T have "errorResult script_platform (js ''safety'') (js ''English'')
      = Object [(js ''summary'', errorMap script_platform (js ''safety'') (js ''English'')),
                (js ''recommendations'', Array [] [])]" by blast
  moreover from T have "errorMap script_platform (js ''safety'') (js ''English'')
      = String (js ''I cannot provide recommendations for that specific query due to safety guidelines. Please try a different topic.'')"
    by blast
  ultimately show ?thesis by simp
qed

theorem errorMap_no_fallback_counterexample:
  "sendMessage script_platform (js ''hi'') (js ''German'')
      \<lparr>chat = False, world = [Inl (Failure None (Text (js ''boom'')))]\<rparr>
     = (Inr (Object [(js ''summary'', Undefined), (js ''recommendations'', Array [] [])]),
        \<lparr>chat = True, world = []\<rparr>)
   \<and> Undefined \<noteq> errorMap script_platform (js ''default'') (js ''English'')"
proof -
  let ?e = "Failure None (Text (js ''boom''))"
  have i: "\<not> includes_str (js ''boom'') (js ''fetch failed'')"
    "\<not> includes_str (js ''boom'') (js ''SAFETY'')" "\<not> includes_str (js ''boom'') (js ''BLOCKED'')"
    by (simp_all add: js_def startsWith_def)
  have t: "sendMessage_try script_platform (js ''hi'') (js ''German'')
        \<lparr>chat = False, world = [Inl ?e]\<rparr>
      = (Inl ?e, \<lparr>chat = True, world = []\<rparr>)"
    using i(1) by (rule script_fails_once)
  have c: "errorType_of ?e = Inr (js ''default'')"
    using i(2,3) by (simp add: errorType_of_Text)
  have g: "js ''German'' \<notin> set Languages" by (simp add: Languages_def js_def)
  have p: "Object_prototype script_platform (js ''German'') = None"
    by (simp add: script_platform_def Object_prototype_names_def js_def)
  have "errorResult script_platform (js ''default'') (js ''German'')
      = Object [(js ''summary'', Undefined), (js ''recommendations'', Array [] [])]"
    by (simp add: errorResult_def errorMap_unsupported [OF g] p)
  then show ?thesis using sendMessage_caught [OF t c] by (simp add: errorMap_English)
qed

section \<open>RecommendationParser and ConversationSession\<close>

lemma substring_take: "substring s 0 (int n) = take n s"
proof -
  have "min (max (int n) 0) (int (length s)) = int (min n (length s))" by simp
  moreover have "take (min n (length s)) s = take n s" by (simp add: min_def)
  ultimately show ?thesis unfolding substring_def Let_def by simp
qed

lemma parse_or_fallback_None:
  "JSON_parse cleanJson = None \<Longrightarrow>
   parse_or_fallback cleanJson
     = Object [(js ''summary'',
                String (if length cleanJson \<le> 500 then cleanJson
                        else take 500 cleanJson @ js ''...'')),
               (js ''recommendations'', Array [] [])]"
  using substring_take [of cleanJson 500] by (simp add: parse_or_fallback_def)

lemma fallback_600:
  assumes "JSON_parse cleanJson = None" "length cleanJson = 600"
  shows "\<exists>s. get_prop (parse_or_fallback cleanJson) (js ''summary'') = String s
            \<and> length s = 503 \<and> endsWith s (js ''...'')"
proof -
  have "get_prop (parse_or_fallback cleanJson) (js ''summary'')
      = String (take 500 cleanJson @ js ''...'')"
    using assms by (simp add: parse_or_fallback_None)
  moreover have "length (take 500 cleanJson @ js ''...'') = 503"
    using assms(2) by (simp add: js_def)
  ultimately show ?thesis by simp
qed

lemma handle_result_fallback:
  assumes "truthy (response_text result)"
    and "JSON_parse (extractJSON (the (response_text result))) = None"
  shows "handle_result P result
     = Inr (Object [(js ''summary'',
                     String (if length (extractJSON (the (response_text result))) \<le> 500
                             then extractJSON (the (response_text result))
                             else take 500 (extractJSON (the (response_text result))) @ js ''...'')),
                    (js ''recommendations'', Array [] []),
                    (js ''sources'', Array (map Source_value (sources_of result)) [])])"
  using assms js_neq_simps
  by (simp add: handle_result_def Let_def parse_or_fallback_None set_sources_def)

lemma JSON_parse_prose: "JSON_parse (0x78 # r) = None"
proof -
  have n: "number_literal (0x78 # r) = None"
    by (simp add: number_literal_def number_int_def isDigit_def)
  have "parse_value (Suc k) (0x78 # r) = None" for k
    by (simp add: skip_ws_def json_ws_def startsWith_def js_def n)
  then have "parse_value (Suc (2 * length r + 3)) (0x78 # r) = None" .
  moreover have "2 * length (0x78 # r) + 2 = Suc (2 * length r + 3)" by simp
  ultimately show ?thesis unfolding JSON_parse_def by (simp only: option.case)
qed

text \<open>
  C2. When \<open>JSON.parse\<close> rejects the extracted text, the result has an empty
  recommendations list and the text as its summary: the text itself when it has at most
  500 code units, its first 500 code units followed by \<open>...\<close> otherwise (503 code units
  for a text of 600). The failure does not leave \<open>sendMessage\<close>: the rest of the \<open>try\<close>
  block goes on with this result and attaches the sources to it.
\<close>

theorem parse_failure_fallback:
  "(JSON_parse cleanJson = None \<longrightarrow>
      parse_or_fallback cleanJson
        = Object [(js ''summary'',
                   String (if length cleanJson \<le> 500 then cleanJson
                           else take 500 cleanJson @ js ''...'')),
                  (js ''recommendations'', Array [] [])])
   \<and> (JSON_parse cleanJson = None \<and> length cleanJson = 600 \<longrightarrow>
        (\<exists>s. get_prop (parse_or_fallback cleanJson) (js ''summary'') = String s
             \<and> length s = 503 \<and> endsWith s (js ''...'')))
   \<and> (truthy (response_text result)
        \<and> JSON_parse (extractJSON (the (response_text result))) = None \<longrightarrow>
        handle_result P result
          = Inr (Object
                  [(js ''summary'',
                    String (if length (extractJSON (the (response_text result))) \<le> 500
                            then extractJSON (the (response_text result))
                            else take 500 (extractJSON (the (response_text result))) @ js ''...'')),
                   (js ''recommendations'', Array [] []),
                   (js ''sources'', Array (map Source_value (sources_of result)) [])]))"
  using parse_or_fallback_None [of cleanJson] fallback_600 [of cleanJson]
    handle_result_fallback [of result P]
  by blast

theorem parse_failure_fallback_witness:
  "parse_or_fallback (js ''xyz'')
     = Object [(js ''summary'', String (js ''xyz'')), (js ''recommendations'', Array [] [])]
   \<and> parse_or_fallback (replicate 600 0x78)
     = Object [(js ''summary'', String (replicate 500 0x78 @ js ''...'')),
               (js ''recommendations'', Array [] [])]
   \<and> length (replicate 500 (0x78 :: jschar) @ js ''...'') = 503"
proof -
  have a: "JSON_parse (js ''xyz'') = None"
    using JSON_parse_prose [of "js ''yz''"] by (simp add: js_def)
  have "replicate 600 (0x78 :: jschar) = 0x78 # replicate 599 0x78"
    by (simp add: replicate_Suc [symmetric] del: replicate_Suc replicate.simps)
  then have b: "JSON_parse (replicate 600 0x78) = None"
    using JSON_parse_prose [of "replicate 599 0x78"] by simp
  have c: "take 500 (replicate 600 (0x78 :: jschar)) = replicate 500 0x78" by simp
  from parse_failure_fallback [where cleanJson = "js ''xyz''", THEN conjunct1] a
  have 1: "parse_or_fallback (js ''xyz'')
     = Object [(js ''summary'', String (js ''xyz'')), (js ''recommendations'', Array [] [])]"
    by (simp add: js_def)
  from parse_failure_fallback [where cleanJson = "replicate 600 0x78", THEN conjunct1] b
  have 2: "parse_or_fallback (replicate 600 0x78)
     = Object [(js ''summary'', String (replicate 500 0x78 @ js ''...'')),
               (js ''recommendations'', Array [] [])]"
    by (simp only: c length_replicate) simp
  show ?thesis using 1 2 by (simp add: js_def)
qed

















lemma script_initChat:
  "initChat script_platform \<lparr>chat = False, world = w\<rparr> = (None, \<lparr>chat = True, world = w\<rparr>)"
  by (simp add: initChat_def script_platform_def)








lemma isRetryable_not_a_function: "isRetryable not_a_function = Inr False"
  by (simp add: isRetryable_def not_a_function_def Error_def message_includes_def js_def
      startsWith_def)

lemma errorType_of_message_42: "errorType_of (Failure s message_42) = Inl not_a_function"
  by (simp add: errorType_of_def message_includes_def message_42_def)

text \<open>
  C10 (what the code does). \<open>getColdStart\<close> rejects when \<open>sendMessage\<close> rejects, and
  \<open>sendMessage\<close> rejects when its \<open>catch\<close> block throws: the chat turn fails three times
  with status 503 and the message 42, \<open>withRetry\<close> re-raises the third failure, and
  \<open>error?.message?.includes('SAFETY')\<close> throws a \<open>TypeError\<close>, the message being neither a
  string nor nullish. \<open>withRetry\<close> inside \<open>getColdStart\<close> observes that failure, does not
  retry it, and \<open>getColdStart\<close> rejects with it.
\<close>

theorem getColdStart_rejects:
  "sendMessage script_platform coldStartPrompt (js ''English'')
      \<lparr>chat = False, world = [Inl (Failure (Some 503) message_42), Inl (Failure (Some 503) message_42),
                 Inl (Failure (Some 503) message_42)]\<rparr>
     = (Inl not_a_function, \<lparr>chat = True, world = []\<rparr>)
   \<and> getColdStart script_platform (js ''English'')
        \<lparr>chat = False, world = [Inl (Failure (Some 503) message_42), Inl (Failure (Some 503) message_42),
                 Inl (Failure (Some 503) message_42)]\<rparr>
     = \<lparr>outcome = Inl not_a_function, final = \<lparr>chat = True, world = []\<rparr>,
        attempts = [Inl not_a_function], delays = []\<rparr>"
proof -
  let ?e = "Failure (Some 503) message_42"
  let ?fin = "\<lparr>chat = True, world = ([] :: (failure + GenerateContentResponse) list)\<rparr>"
  let ?st = "\<lparr>chat = False, world = [Inl ?e, Inl ?e, Inl ?e]\<rparr>"
  let ?op = "chat_turn script_platform (languagePrompt (js ''English'') coldStartPrompt)"
  have r: "isRetryable ?e = Inr True" by (simp add: isRetryable_def)
  have "withRetry ?op 2 1000 \<lparr>chat = True, world = [Inl ?e, Inl ?e, Inl ?e]\<rparr>
      = \<lparr>outcome = settled (Inl ?e), final = ?fin, attempts = [Inl ?e, Inl ?e, Inl ?e],
         delays = [1000, 2000]\<rparr>"
    using r
    by (intro fails_thrice [where ?s1.0 = "\<lparr>chat = True, world = [Inl ?e, Inl ?e]\<rparr>"
          and ?s2.0 = "\<lparr>chat = True, world = [Inl ?e]\<rparr>"])
       (simp_all add: chat_turn_def script_platform_def)
  then have "sendMessage_try script_platform coldStartPrompt (js ''English'') ?st
      = (Inl ?e, ?fin)"
    using r by (simp add: sendMessage_try_def script_initChat settled_def)
  then have s: "sendMessage script_platform coldStartPrompt (js ''English'') ?st
      = (Inl not_a_function, ?fin)"
    using errorType_of_message_42 by (rule sendMessage_catch_throws)
  have g: "getColdStart script_platform (js ''English'') ?st
      = \<lparr>outcome = Inl not_a_function, final = ?fin, attempts = [Inl not_a_function],
         delays = []\<rparr>"
    unfolding getColdStart_def
    using withRetry_stop [where operation = "sendMessage script_platform coldStartPrompt (js ''English'')"
        and s = ?st and e = not_a_function and s' = ?fin and b = False and n = 2 and d = 1000]
      s isRetryable_not_a_function
    by simp
  from s g show ?thesis by (intro conjI)
qed

section \<open>Sorting by year and filtering by decade\<close>

declare bit_length.simps [simp del]

lemma bit_length_lower: "0 < n \<Longrightarrow> 2 ^ (bit_length n - 1) \<le> n"
proof (induction n rule: bit_length.induct)
  case (1 n)
  show ?case
  proof (cases "n div 2 \<le> 0")
    case True
    then have "bit_length (n div 2) = 0" by (simp add: bit_length.simps)
    then show ?thesis using 1(2) by (subst bit_length.simps) simp
  next
    case False
    then have "2 ^ (bit_length (n div 2) - 1) \<le> n div 2" using 1 by simp
    moreover have "bit_length (n div 2) > 0" using False by (subst bit_length.simps) simp
    ultimately have "2 ^ bit_length (n div 2) \<le> 2 * (n div 2)"
      by (cases "bit_length (n div 2)") simp_all
    then have "2 ^ bit_length (n div 2) \<le> n" by linarith
    then show ?thesis using 1(2) by (subst bit_length.simps) simp
  qed
qed

lemma round_53_pos: "0 < a \<Longrightarrow> 0 < round_53 a"
proof -
  assume a: "0 < a"
  show ?thesis
  proof (cases "a < 2 ^ 53")
    case True
    then show ?thesis using a by (simp add: round_53_def)
  next
    case False
    define e where "e = bit_length a - 53"
    have "(2::int) ^ e \<le> 2 ^ (bit_length a - 1)" unfolding e_def by (intro power_increasing) simp_all
    from this bit_length_lower [OF a] have "2 ^ e \<le> a" by (rule order_trans)
    then have "0 < a div 2 ^ e" by (simp add: pos_imp_zdiv_pos_iff)
    then show ?thesis using False by (simp add: round_53_def Let_def e_def [symmetric])
  qed
qed

lemma round_53_0: "round_53 0 = 0" by (simp add: round_53_def)

lemma round_53_nonneg: "0 \<le> a \<Longrightarrow> 0 \<le> round_53 a"
  using round_53_pos [of a] round_53_0 by (cases "a = 0") simp_all

lemma nonpositive_to_double: "nonpositive (to_double d) \<longleftrightarrow> d \<le> 0"
proof -
  consider "d = 0" | "d < 0" | "0 < d" by linarith
  then show ?thesis
  proof cases
    case 1
    then show ?thesis by (simp add: to_double_def Let_def round_53_0)
  next
    case 2
    moreover have "0 \<le> round_53 \<bar>d\<bar>" by (intro round_53_nonneg) simp
    ultimately show ?thesis by (simp add: to_double_def Let_def)
  next
    case 3
    then have "0 < round_53 \<bar>d\<bar>" by (intro round_53_pos) simp
    then show ?thesis using 3 by (simp add: to_double_def Let_def)
  qed
qed

lemma to_double_bound: "to_double x = Fin v \<Longrightarrow> \<bar>v\<bar> < 2 ^ 1024"
proof -
  assume a: "to_double x = Fin v"
  have n: "0 \<le> round_53 \<bar>x\<bar>" by (intro round_53_nonneg) simp
  have "\<not> 2 ^ 1024 \<le> round_53 \<bar>x\<bar>" and "v = (if x < 0 then - round_53 \<bar>x\<bar> else round_53 \<bar>x\<bar>)"
    using a by (simp_all add: to_double_def Let_def split: if_splits)
  then show ?thesis using n by (simp split: if_splits)
qed

lemma to_double_is_double: "is_double (to_double x)"
proof (cases "to_double x")
  case (Fin v)
  then show ?thesis using to_double_bound [OF Fin] by (simp add: is_double_def)
qed (simp_all add: is_double_def to_double_def Let_def split: if_splits)

lemma parseInt_cases: "parseInt s = NaN \<or> is_double (parseInt s)"
  by (simp add: parseInt_def Let_def to_double_is_double)

lemma year_or_0_is_double: "is_double (year_or_0 m)"
  using parseInt_cases [of "split_first en_dash (year m)"]
  by (auto simp: year_or_0_def Let_def is_double_def)

lemma cmp_rank:
  assumes "is_double x" "is_double y"
  shows "nonpositive (num_sub x y) \<longleftrightarrow> rank x \<le> rank y"
  using assms
  by (cases x; cases y) (simp_all add: is_double_def rank_def nonpositive_to_double)



lemma insert_cmp_oldest:
  "insert_cmp (\<lambda>a b. num_sub (year_or_0 a) (year_or_0 b)) x ys
     = insort_key (\<lambda>m. rank (year_or_0 m)) x ys"
  by (induction ys) (simp_all add: cmp_rank year_or_0_is_double)

lemma insert_cmp_newest:
  "insert_cmp (\<lambda>a b. num_sub (year_or_0 b) (year_or_0 a)) x ys
     = insort_key (\<lambda>m. - rank (year_or_0 m)) x ys"
  by (induction ys) (simp_all add: cmp_rank year_or_0_is_double)

lemma Array_sort_oldest:
  "Array_sort (\<lambda>a b. num_sub (year_or_0 a) (year_or_0 b)) xs
     = sort_key (\<lambda>m. rank (year_or_0 m)) xs"
  by (induction xs) (simp_all add: Array_sort_def insert_cmp_oldest)

lemma Array_sort_newest:
  "Array_sort (\<lambda>a b. num_sub (year_or_0 b) (year_or_0 a)) xs
     = sort_key (\<lambda>m. - rank (year_or_0 m)) xs"
  by (induction xs) (simp_all add: Array_sort_def insert_cmp_newest)




lemma sort_movies_mset: "mset (sort_movies how xs) = mset xs"
  by (simp add: sort_movies_def Array_sort_oldest Array_sort_newest)



lemma sort_movies_length: "length (sort_movies how xs) = length xs"
  using sort_movies_mset [of how xs] by (metis size_mset)















section \<open>The query history\<close>

lemma addToHistory_stored:
  assumes "writable ls"
  shows "getHistory userId (addToHistory toLowerCase now q userId ls)
     = take 20 (\<lparr>query = q, timestamp = now\<rparr>
                # filter (\<lambda>h. toLowerCase (query h) \<noteq> toLowerCase (trim q)) (getHistory userId ls))"
  using assms by (simp add: addToHistory_def Let_def getHistory_def)

lemma addToHistory_newest_first:
  assumes "writable ls"
  shows "hd (getHistory userId (addToHistory toLowerCase now q userId ls))
           = \<lparr>query = q, timestamp = now\<rparr>"
    and "length (getHistory userId (addToHistory toLowerCase now q userId ls)) \<le> 20"
  using assms by (simp_all add: addToHistory_stored)

lemma addToHistory_dedup_trimmed:
  assumes "writable ls" "\<forall>h \<in> set (getHistory userId ls). trim (query h) = query h"
    and "h \<in> set (tl (getHistory userId (addToHistory toLowerCase now q userId ls)))"
  shows "toLowerCase (trim (query h)) \<noteq> toLowerCase (trim q)"
proof -
  have "tl (getHistory userId (addToHistory toLowerCase now q userId ls))
      = take 19 (filter (\<lambda>h. toLowerCase (query h) \<noteq> toLowerCase (trim q)) (getHistory userId ls))"
    using assms(1) by (simp add: addToHistory_stored take_Cons')
  then have "h \<in> set (filter (\<lambda>h. toLowerCase (query h) \<noteq> toLowerCase (trim q)) (getHistory userId ls))"
    using assms(3) by (metis in_set_takeD)
  then show ?thesis using assms(2) by simp
qed

lemma history_key_guest: "getKey None = js ''moviesgpt_history_guest''"
  by (simp add: getKey_def truthy_def BASE_KEY_def js_def)

text \<open>
  C9. The stored query is the query as passed, but it is compared trimmed with the stored
  queries untrimmed: a query with surrounding whitespace is therefore not found again.
  Adding \<open>" a"\<close> twice to an empty history leaves two entries with the same dedup key.
\<close>

theorem addToHistory_untrimmed_duplicate:
  "getHistory None
     (addToHistory toLowerCase_ascii 2 (js '' a'') None
        (addToHistory toLowerCase_ascii 1 (js '' a'') None
           \<lparr>items = (\<lambda>k. None), writable = True\<rparr>))
   = [\<lparr>query = js '' a'', timestamp = 2\<rparr>, \<lparr>query = js '' a'', timestamp = 1\<rparr>]
   \<and> map (\<lambda>h. toLowerCase_ascii (trim (query h)))
         [\<lparr>query = js '' a'', timestamp = 2\<rparr>, \<lparr>query = js '' a'', timestamp = 1\<rparr>]
       = [js ''a'', js ''a'']"
proof -
  let ?ls0 = "\<lparr>items = (\<lambda>k. None), writable = True\<rparr>"
  let ?ls1 = "addToHistory toLowerCase_ascii 1 (js '' a'') None ?ls0"
  have w: "writable ?ls1" by (simp add: addToHistory_def Let_def)
  have 1: "getHistory None ?ls1 = [\<lparr>query = js '' a'', timestamp = 1\<rparr>]"
    by (simp add: addToHistory_stored) (simp add: getHistory_def)
  have n: "toLowerCase_ascii (js '' a'') \<noteq> toLowerCase_ascii (trim (js '' a''))"
    by (simp add: toLowerCase_ascii_def trim_def js_def isWhiteSpace_def)
  have k: "toLowerCase_ascii (trim (js '' a'')) = js ''a''"
    by (simp add: toLowerCase_ascii_def trim_def js_def isWhiteSpace_def)
  show ?thesis
    using n by (simp add: addToHistory_stored [OF w] 1 k)
qed

end
